theory Spec2Isabelle
  imports Complex_Main "HOL-Library.Log_Nat"
begin

section \<open>JavaScript values used by the dashboard server\<close>

text \<open>
  The server (the file \<^verbatim>\<open>server.js\<close> of the README) is one Node.js module. Its
  progress events carry a \<^verbatim>\<open>percentage\<close> that is either a number literal
  (\<^verbatim>\<open>0\<close>, \<^verbatim>\<open>10\<close>, \<^verbatim>\<open>80\<close>, \<^verbatim>\<open>100\<close>, \<^verbatim>\<open>-1\<close>) or the result of
  \<^verbatim>\<open>Number.prototype.toFixed(2)\<close>, which is a string. Both kinds are kept apart.

  JavaScript numbers are IEEE doubles. A finite double is kept as the rational number it
  denotes, and every arithmetic operation rounds its exact result to the nearest double.
\<close>

datatype jsnum = Fin rat | PosInf | NegInf | NaN

datatype jsval = JNum rat | JStr string

subsection \<open>Rounding to a double\<close>

text \<open>
  The binade of a positive number \<open>x\<close> is the exponent \<open>e\<close> with \<open>2^e \<le> x < 2^(e+1)\<close>,
  found from the bit lengths of numerator and denominator.
\<close>

definition binade :: "rat \<Rightarrow> int" where
  "binade x =
     (let (p, q) = quotient_of x; d = bitlen p - bitlen q
      in if 2 powi d \<le> x then d else d - 1)"

text \<open>The nearest integer, the even one of two equally near.\<close>

definition round_half_even :: "rat \<Rightarrow> int" where
  "round_half_even q =
     (let f = \<lfloor>q\<rfloor>; r = q - of_int f
      in if r < 1 / 2 then f else if 1 / 2 < r then f + 1 else if even f then f else f + 1)"

text \<open>
  Round to nearest, ties to even, with the 53-bit significand of a double: in the binade
  \<open>e\<close> the doubles are the multiples of \<open>2^(e-52)\<close>. The exponent range of a double is
  not limited here; byte counts are taken to be below \<open>2^53\<close>, where they are doubles
  themselves and no value computed from them leaves the normal range.
\<close>

definition fl :: "rat \<Rightarrow> rat" where
  "fl x =
     (if x = 0 then 0
      else (let u = 2 powi (binade \<bar>x\<bar> - 52)
            in sgn x * of_int (round_half_even (\<bar>x\<bar> / u)) * u))"

text \<open>\<^verbatim>\<open>a / b\<close> for two byte counts (non-negative integers).\<close>

definition js_div :: "nat \<Rightarrow> nat \<Rightarrow> jsnum" where
  "js_div a b =
     (if b = 0 then (if a = 0 then NaN else PosInf)
      else Fin (fl (rat_of_nat a / rat_of_nat b)))"

text \<open>\<^verbatim>\<open>x * k\<close> and \<^verbatim>\<open>x + c\<close> for a finite double constant on the right.\<close>

fun js_mul :: "jsnum \<Rightarrow> rat \<Rightarrow> jsnum" where
  "js_mul (Fin x) k = Fin (fl (x * k))"
| "js_mul PosInf k = (if k = 0 then NaN else if 0 < k then PosInf else NegInf)"
| "js_mul NegInf k = (if k = 0 then NaN else if 0 < k then NegInf else PosInf)"
| "js_mul NaN k = NaN"

fun js_add :: "jsnum \<Rightarrow> rat \<Rightarrow> jsnum" where
  "js_add (Fin x) c = Fin (fl (x + c))"
| "js_add PosInf c = PosInf"
| "js_add NegInf c = NegInf"
| "js_add NaN c = NaN"

subsection \<open>Decimal digits\<close>

definition digit_char :: "nat \<Rightarrow> char" where
  "digit_char d = ''0123456789'' ! (d mod 10)"

definition is_digit :: "char \<Rightarrow> bool" where
  "is_digit c = (c \<in> set ''0123456789'')"

definition digit_val :: "char \<Rightarrow> nat" where
  "digit_val c = length (takeWhile (\<lambda>d. d \<noteq> c) ''0123456789'') mod 10"

text \<open>The decimal numeral of a natural number, without leading zeros.\<close>

fun show_nat :: "nat \<Rightarrow> string" where
  "show_nat n = (if n < 10 then [digit_char n] else show_nat (n div 10) @ [digit_char n])"

text \<open>The last \<open>k\<close> decimal digits of \<open>n\<close>, zero-padded on the left.\<close>

primrec pad_digits :: "nat \<Rightarrow> nat \<Rightarrow> string" where
  "pad_digits 0 n = []"
| "pad_digits (Suc k) n = pad_digits k (n div 10) @ [digit_char n]"

text \<open>Reading a digit string back, most significant digit first.\<close>

definition read_nat :: "string \<Rightarrow> nat" where
  "read_nat s = foldl (\<lambda>acc c. 10 * acc + digit_val c) 0 s"

subsection \<open>\<^verbatim>\<open>toFixed(2)\<close>\<close>

text \<open>
  \<^verbatim>\<open>x.toFixed(2)\<close>: for a finite double \<open>x\<close> the integer \<open>n\<close> with \<open>n / 100\<close>
  nearest to the exact value of \<open>x\<close> (the larger one on a tie), printed with two fraction
  digits; a negative \<open>x\<close> is printed as \<^verbatim>\<open>-\<close> followed by the rendering of \<open>-x\<close>. This
  is the fixed-notation branch of the method, taken for \<open>\<bar>x\<bar> < 10^21\<close>, which every
  percentage of byte counts below \<open>2^53\<close> is. Non-finite numbers print their name.
\<close>

definition hundredths :: "rat \<Rightarrow> nat" where
  "hundredths x = nat \<lfloor>x * 100 + 1 / 2\<rfloor>"

definition fixed2 :: "nat \<Rightarrow> string" where
  "fixed2 n = show_nat (n div 100) @ ''.'' @ pad_digits 2 (n mod 100)"

fun toFixed2 :: "jsnum \<Rightarrow> string" where
  "toFixed2 (Fin x) =
     (if x < 0 then ''-'' @ fixed2 (hundredths (- x)) else fixed2 (hundredths x))"
| "toFixed2 PosInf = ''Infinity''"
| "toFixed2 NegInf = ''-Infinity''"
| "toFixed2 NaN = ''NaN''"

text \<open>The number \<^verbatim>\<open>toFixed(2)\<close> prints for a non-negative \<open>x\<close>: \<open>x\<close> rounded to hundredths.\<close>

definition round2 :: "rat \<Rightarrow> rat" where
  "round2 x = rat_of_nat (hundredths x) / 100"

subsection \<open>The number a percentage denotes\<close>

text \<open>
  A number denotes itself. A string denotes a number when it is a decimal numeral
  \<^verbatim>\<open>digits.digits\<close> with an optional leading minus sign, which is how the client
  prints it in \<^verbatim>\<open>`${data.message} (${data.percentage}%)`\<close>. Any other string
  (\<^verbatim>\<open>NaN\<close>, \<^verbatim>\<open>Infinity\<close>) denotes no percentage.
\<close>

definition read_decimal :: "string \<Rightarrow> rat option" where
  "read_decimal s =
     (let ip = takeWhile is_digit s; rest = dropWhile is_digit s in
      case rest of
        [] \<Rightarrow> None
      | c # fp \<Rightarrow>
          if c = CHR ''.'' \<and> ip \<noteq> [] \<and> fp \<noteq> [] \<and> list_all is_digit fp
          then Some (rat_of_nat (read_nat ip) + rat_of_nat (read_nat fp) / 10 ^ length fp)
          else None)"

fun pct_value :: "jsval \<Rightarrow> rat option" where
  "pct_value (JNum r) = Some r"
| "pct_value (JStr s) =
     (case s of
        [] \<Rightarrow> None
      | c # t \<Rightarrow> if c = CHR ''-'' then map_option uminus (read_decimal t) else read_decimal s)"


section \<open>Timestamps and artifact names\<close>

text \<open>
  A \<^verbatim>\<open>Date\<close> is kept as the UTC fields \<^verbatim>\<open>toISOString\<close> prints; the time value
  behind them is not needed. \<^verbatim>\<open>toISOString\<close> prints
  \<^verbatim>\<open>YYYY-MM-DDTHH:mm:ss.sssZ\<close>, with the expanded year \<^verbatim>\<open>+YYYYYY\<close> or
  \<^verbatim>\<open>-YYYYYY\<close> outside the years 0 to 9999.
\<close>

record js_date =
  utc_year :: int
  utc_month :: nat
  utc_day :: nat
  utc_hours :: nat
  utc_minutes :: nat
  utc_seconds :: nat
  utc_millis :: nat

definition year_string :: "int \<Rightarrow> string" where
  "year_string y =
     (if 0 \<le> y \<and> y \<le> 9999 then pad_digits 4 (nat y)
      else if y < 0 then ''-'' @ pad_digits 6 (nat (- y))
      else ''+'' @ pad_digits 6 (nat y))"

definition toISOString :: "js_date \<Rightarrow> string" where
  "toISOString d =
     year_string (utc_year d) @ ''-'' @ pad_digits 2 (utc_month d) @ ''-'' @
     pad_digits 2 (utc_day d) @ ''T'' @ pad_digits 2 (utc_hours d) @ '':'' @
     pad_digits 2 (utc_minutes d) @ '':'' @ pad_digits 2 (utc_seconds d) @ ''.'' @
     pad_digits 3 (utc_millis d) @ ''Z''"

text \<open>The range of values a \<^verbatim>\<open>Date\<close> can hold (years \<open>-271821\<close> to \<open>275760\<close>).\<close>

definition valid_date :: "js_date \<Rightarrow> bool" where
  "valid_date d =
     (- 271821 \<le> utc_year d \<and> utc_year d \<le> 275760 \<and>
      1 \<le> utc_month d \<and> utc_month d \<le> 12 \<and> 1 \<le> utc_day d \<and> utc_day d \<le> 31 \<and>
      utc_hours d < 24 \<and> utc_minutes d < 60 \<and> utc_seconds d < 60 \<and> utc_millis d < 1000)"

text \<open>Two instants lie in the same wall-clock second when they differ at most in the milliseconds.\<close>

definition same_second :: "js_date \<Rightarrow> js_date \<Rightarrow> bool" where
  "same_second d e = (d\<lparr>utc_millis := 0\<rparr> = e\<lparr>utc_millis := 0\<rparr>)"

text \<open>\<^verbatim>\<open>.replace(/:/g, '-')\<close>\<close>

definition replace_colons :: "string \<Rightarrow> string" where
  "replace_colons s = map (\<lambda>c. if c = CHR '':'' then CHR ''-'' else c) s"

text \<open>
  \<^verbatim>\<open>performBackup\<close>, lines 103 to 105: the artifact name of a run started at \<open>d\<close>, and
  the path \<^verbatim>\<open>path.join(__dirname, 'temp', filename)\<close>, written relative to the
  server's directory. The segments are joined as they are: for a name with \<^verbatim>\<open>.\<close> or
  \<^verbatim>\<open>..\<close> segments \<^verbatim>\<open>path.join\<close> prints a shorter path to the same file.
\<close>

definition backup_filename :: "js_date \<Rightarrow> string" where
  "backup_filename d = ''backup-'' @ replace_colons (toISOString d) @ ''.sql''"

definition temp_path :: "string \<Rightarrow> string" where
  "temp_path filename = ''temp/'' @ filename"

section \<open>State of the server and of its collaborators\<close>

record progress_event =
  message :: string
  percentage :: jsval

text \<open>One call of \<^verbatim>\<open>log(message, notify)\<close>.\<close>

record audit_entry =
  stamp :: js_date
  entry_text :: string
  escalate :: bool

text \<open>
  What a route handler does with its request: \<^verbatim>\<open>res.redirect\<close>, \<^verbatim>\<open>res.status(n).send\<close>,
  or nothing at all, when an exception is thrown outside every \<^verbatim>\<open>try\<close> block and
  \<^verbatim>\<open>catch\<close> of a promise and ends the process (the module installs no
  \<^verbatim>\<open>uncaughtException\<close> handler).
\<close>

datatype response = Redirect string | Status nat string | Uncaught string

text \<open>
  \<^item> \<open>wall_clock\<close>, \<open>ticks\<close>: the clock; the \<open>n\<close>-th reading of \<^verbatim>\<open>new Date()\<close> since
    start is \<open>wall_clock n\<close>;
  \<^item> \<open>audit\<close>: the calls of \<^verbatim>\<open>log\<close> in order; the line each call appends to
    \<^verbatim>\<open>logs/backup.log\<close> is \<open>log_line\<close> of the entry;
  \<^item> \<open>mails\<close>: the texts handed to \<^verbatim>\<open>sendEmailNotification\<close>;
  \<^item> \<open>emitted\<close>: the \<^verbatim>\<open>progress\<close> events broadcast on \<^verbatim>\<open>io\<close>;
  \<^item> \<open>temp_dir\<close>: the paths of the files in the \<^verbatim>\<open>temp\<close> directory;
  \<^item> \<open>bucket\<close>: the keys of the objects in the storage bucket;
  \<^item> \<open>created_dbs\<close>: the databases made by \<^verbatim>\<open>createdb\<close>;
  \<^item> \<open>restored\<close>: the successful \<^verbatim>\<open>psql -d db -f file\<close> runs, as pairs \<open>(db, file)\<close>.
\<close>

record state =
  wall_clock :: "nat \<Rightarrow> js_date"
  ticks :: nat
  audit :: "audit_entry list"
  mails :: "string list"
  emitted :: "progress_event list"
  temp_dir :: "string set"
  bucket :: "string set"
  created_dbs :: "string list"
  restored :: "(string \<times> string) list"

text \<open>
  What the collaborators answer during one run. A promise resolves or rejects with an
  error, of which the server reads \<^verbatim>\<open>error.message\<close> only; a synchronous call that
  throws is a rejection too.
  \<^item> \<open>pg_dump\<close>, \<open>psql\<close>, \<open>createdb\<close>: the external commands (\<^verbatim>\<open>execPromise\<close>
    rejects on a non-zero exit);
  \<^item> \<open>stat_size\<close>: \<^verbatim>\<open>fs.statSync(filepath).size\<close>;
  \<^item> \<open>chunks\<close>: the \<^verbatim>\<open>chunk.length\<close> of the \<^verbatim>\<open>data\<close> events delivered before the
    transfer settles;
  \<^item> \<open>late_chunks\<close>: those of the \<^verbatim>\<open>data\<close> events delivered after a transfer has
    been rejected: the source stream keeps flowing, since the handlers never remove
    their \<^verbatim>\<open>data\<close> listener nor destroy the stream. A transfer that resolves has
    consumed the whole stream, so nothing follows it;
  \<^item> \<open>cos_upload\<close>, \<open>head_object\<close> (its \<^verbatim>\<open>ContentLength\<close>), \<open>delete_object\<close>: storage;
  \<^item> \<open>write_stream\<close>: how the piped download ends: resolved when the write stream
    emits \<^verbatim>\<open>finish\<close>, rejected with the error of the first \<^verbatim>\<open>error\<close> event;
  \<^item> \<open>error_from\<close>: the stream that emits this \<^verbatim>\<open>error\<close> event. The awaited promise
    listens on the write stream only (lines 183 and 270); the object read stream has
    no \<^verbatim>\<open>error\<close> listener, and an event emitter throws an \<^verbatim>\<open>error\<close> event that
    nobody listens to;
  \<^item> \<open>unlink\<close>: \<^verbatim>\<open>fs.unlinkSync(filepath)\<close>;
  \<^item> \<open>date_now\<close>: \<^verbatim>\<open>Date.now()\<close>; \<open>db_name\<close>: \<^verbatim>\<open>process.env.DB_NAME\<close>.
  A transfer that is rejected is taken to leave no file behind, and a command that fails
  no effect.
\<close>

datatype 'a outcome = Resolved 'a | Rejected string

datatype emitter = FileStream | ObjectStream

record collaborators =
  pg_dump :: "unit outcome"
  stat_size :: "nat outcome"
  chunks :: "nat list"
  late_chunks :: "nat list"
  cos_upload :: "unit outcome"
  head_object :: "nat outcome"
  write_stream :: "unit outcome"
  error_from :: emitter
  psql :: "unit outcome"
  createdb :: "unit outcome"
  delete_object :: "unit outcome"
  unlink :: "unit outcome"
  date_now :: nat
  db_name :: string

subsection \<open>The audit log\<close>

definition log_line :: "audit_entry \<Rightarrow> string" where
  "log_line e = ''['' @ toISOString (stamp e) @ ''] '' @ entry_text e"

text \<open>
  \<^verbatim>\<open>log\<close>, lines 23 to 29. The notifier's own callback (lines 47 to 50) logs the delivery
  result later, without escalation, and is not part of the run.
\<close>

definition log :: "string \<Rightarrow> bool \<Rightarrow> state \<Rightarrow> state" where
  "log msg notify s =
     (let e = \<lparr>stamp = wall_clock s (ticks s), entry_text = msg, escalate = notify\<rparr> in
      s\<lparr>ticks := Suc (ticks s),
        audit := audit s @ [e],
        mails := (if notify then mails s @ [log_line e] else mails s)\<rparr>)"

text \<open>The text of \<^verbatim>\<open>logs/backup.log\<close> made of the appended lines \<open>ls\<close>.\<close>

definition file_text :: "string list \<Rightarrow> string" where
  "file_text ls = concat (map (\<lambda>l. l @ [CHR 0x0A]) ls)"

text \<open>\<^verbatim>\<open>.split('\n')\<close>\<close>

fun split_lines :: "string \<Rightarrow> string list" where
  "split_lines [] = ['''']"
| "split_lines (c # cs) =
     (if c = CHR 0x0A then [] # split_lines cs
      else (case split_lines cs of [] \<Rightarrow> [c # []] | l # ls \<Rightarrow> (c # l) # ls))"

text \<open>
  The dashboard's log view, line 90:
  \<^verbatim>\<open>fs.readFileSync(logFile, 'utf8').split('\n').filter(Boolean).reverse().slice(0, 50)\<close>
\<close>

definition dashboard_logs :: "string \<Rightarrow> string list" where
  "dashboard_logs content = take 50 (rev (filter (\<lambda>l. l \<noteq> []) (split_lines content)))"

subsection \<open>Progress events\<close>

definition emit :: "string \<Rightarrow> jsval \<Rightarrow> state \<Rightarrow> state" where
  "emit msg pct s = s\<lparr>emitted := emitted s @ [\<lparr>message = msg, percentage = pct\<rparr>]\<rparr>"

text \<open>
  \<^verbatim>\<open>if (socket) socket.emit('progress', ...)\<close>: \<open>socket\<close> is \<open>True\<close> for \<^verbatim>\<open>io\<close> and
  \<open>False\<close> for \<^verbatim>\<open>null\<close>.
\<close>

definition emit_if :: "bool \<Rightarrow> string \<Rightarrow> jsval \<Rightarrow> state \<Rightarrow> state" where
  "emit_if socket msg pct s = (if socket then emit msg pct s else s)"

text \<open>The three percentages computed in the \<^verbatim>\<open>data\<close> handlers (lines 124, 177, 264).\<close>

definition upload_percentage :: "nat \<Rightarrow> nat \<Rightarrow> string" where
  "upload_percentage uploadedBytes fileSize =
     toFixed2 (js_add (js_mul (js_div uploadedBytes fileSize) 90) 10)"

definition restore_percentage :: "nat \<Rightarrow> nat \<Rightarrow> string" where
  "restore_percentage downloadedBytes fileSize =
     toFixed2 (js_mul (js_div downloadedBytes fileSize) 80)"

definition recovery_percentage :: "nat \<Rightarrow> nat \<Rightarrow> string" where
  "recovery_percentage downloadedBytes fileSize =
     toFixed2 (js_add (js_mul (js_div downloadedBytes fileSize) 70) 10)"

text \<open>
  A \<^verbatim>\<open>data\<close> handler run over a list of chunks: \<open>bytes\<close> is the byte counter
  (\<^verbatim>\<open>uploadedBytes\<close>, \<^verbatim>\<open>downloadedBytes\<close>) before the first of them, \<open>pct\<close> the
  percentage of the phase.
\<close>

fun on_data :: "bool \<Rightarrow> string \<Rightarrow> (nat \<Rightarrow> nat \<Rightarrow> string) \<Rightarrow> nat \<Rightarrow> nat \<Rightarrow> nat list \<Rightarrow> state \<Rightarrow> state" where
  "on_data socket msg pct fileSize bytes [] s = s"
| "on_data socket msg pct fileSize bytes (chunk # rest) s =
     on_data socket msg pct fileSize (bytes + chunk) rest
       (emit_if socket msg (JStr (pct (bytes + chunk) fileSize)) s)"


text \<open>The values the byte counter takes, chunk after chunk.\<close>

fun running :: "nat \<Rightarrow> nat list \<Rightarrow> nat list" where
  "running bytes [] = []"
| "running bytes (chunk # rest) = (bytes + chunk) # running (bytes + chunk) rest"

section \<open>The operations\<close>

subsection \<open>Backup (\<^verbatim>\<open>performBackup\<close>, lines 101 to 141)\<close>

text \<open>
  Every function below is the \<^verbatim>\<open>try\<close> block from one \<^verbatim>\<open>await\<close> on; a rejection
  leaves it for the \<^verbatim>\<open>catch\<close> block with the state reached so far.
\<close>

definition backup_catch :: "bool \<Rightarrow> string \<Rightarrow> state \<Rightarrow> bool \<times> state" where
  "backup_catch socket msg s =
     (let s1 = log (''Backup failed: '' @ msg) True s;
          s2 = emit_if socket ''Backup failed'' (JNum (- 1)) s1
      in (False, s2))"

definition backup_finish :: "bool \<Rightarrow> collaborators \<Rightarrow> string \<Rightarrow> string \<Rightarrow> state \<Rightarrow> bool \<times> state" where
  "backup_finish socket env filename filepath s =
     (let s1 = s\<lparr>bucket := insert filename (bucket s)\<rparr>;
          s2 = log (''Backup uploaded: '' @ filename) False s1;
          s3 = emit_if socket ''Backup completed'' (JNum 100) s2
      in case unlink env of
           Rejected msg \<Rightarrow> backup_catch socket msg s3
         | Resolved _ \<Rightarrow>
             (let s4 = s3\<lparr>temp_dir := temp_dir s3 - {filepath}\<rparr>;
                  s5 = log (''Temporary file deleted: '' @ filepath) False s4
              in (True, s5)))"

text \<open>
  The events of the chunks that arrive after the \<^verbatim>\<open>catch\<close> block has run: the byte
  counter goes on from where the chunks before the rejection have left it.
\<close>

definition late_data :: "bool \<Rightarrow> string \<Rightarrow> (nat \<Rightarrow> nat \<Rightarrow> string) \<Rightarrow> nat \<Rightarrow> collaborators \<Rightarrow> state \<Rightarrow> state" where
  "late_data socket msg pct fileSize env s =
     on_data socket msg pct fileSize (sum_list (chunks env)) (late_chunks env) s"

text \<open>
  The dump is in the \<^verbatim>\<open>temp\<close> directory once \<^verbatim>\<open>statSync\<close> has returned its size.
\<close>

definition backup_upload :: "bool \<Rightarrow> collaborators \<Rightarrow> string \<Rightarrow> string \<Rightarrow> state \<Rightarrow> bool \<times> state" where
  "backup_upload socket env filename filepath s =
     (let s1 = log (''Backup file created: '' @ filepath @ '', uploading to IBM COS...'') False s;
          s2 = emit_if socket ''Uploading backup...'' (JNum 10) s1
      in case stat_size env of
           Rejected msg \<Rightarrow> backup_catch socket msg s2
         | Resolved fileSize \<Rightarrow>
             (let s3 = s2\<lparr>temp_dir := insert filepath (temp_dir s2)\<rparr>;
                  s4 = on_data socket ''Uploading...'' upload_percentage fileSize 0 (chunks env) s3
              in case cos_upload env of
                   Rejected msg \<Rightarrow>
                     (let (ok, s5) = backup_catch socket msg s4
                      in (ok, late_data socket ''Uploading...'' upload_percentage fileSize env s5))
                 | Resolved _ \<Rightarrow> backup_finish socket env filename filepath s4))"

definition performBackup :: "bool \<Rightarrow> collaborators \<Rightarrow> state \<Rightarrow> bool \<times> state" where
  "performBackup socket env s =
     (let filename = backup_filename (wall_clock s (ticks s));
          filepath = temp_path filename;
          s1 = s\<lparr>ticks := Suc (ticks s)\<rparr>;
          s2 = log (''Starting backup process: '' @ filename) False s1;
          s3 = emit_if socket ''Starting backup...'' (JNum 0) s2
      in case pg_dump env of
           Rejected msg \<Rightarrow> backup_catch socket msg s3
         | Resolved _ \<Rightarrow> backup_upload socket env filename filepath s3)"

text \<open>The manual route, lines 144 to 147: the result of the run is not looked at.\<close>

definition backup_route :: "collaborators \<Rightarrow> state \<Rightarrow> response \<times> state" where
  "backup_route env s = (let (ok, s1) = performBackup True env s in (Redirect ''/'', s1))"

subsection \<open>The scheduler (lines 150 to 157)\<close>

text \<open>
  \<^verbatim>\<open>if (process.env.AUTO_BACKUP_SCHEDULE)\<close>: an unset variable and the empty string are
  falsy. The result says whether a recurring trigger was registered.
\<close>

definition schedule_startup :: "string option \<Rightarrow> state \<Rightarrow> bool \<times> state" where
  "schedule_startup schedule s =
     (case schedule of
        None \<Rightarrow> (False, s)
      | Some expr \<Rightarrow>
          if expr = [] then (False, s)
          else (True, log (''Auto-backup scheduled with cron expression: '' @ expr) False s))"

text \<open>One firing of the registered trigger.\<close>

definition scheduled_backup :: "collaborators \<Rightarrow> state \<Rightarrow> bool \<times> state" where
  "scheduled_backup env s =
     (let s1 = log ''Running scheduled auto-backup...'' False s;
          (ok, s2) = performBackup False env s1;
          s3 = log ''Auto-backup completed'' False s2
      in (ok, s3))"

subsection \<open>Restore (lines 160 to 207)\<close>

definition restore_catch :: "string \<Rightarrow> state \<Rightarrow> response \<times> state" where
  "restore_catch msg s =
     (let s1 = log (''Restore failed: '' @ msg) True s;
          s2 = emit ''Restore failed'' (JNum (- 1)) s1
      in (Status 500 ''Restore failed'', s2))"

definition restore_apply :: "collaborators \<Rightarrow> string \<Rightarrow> string \<Rightarrow> state \<Rightarrow> response \<times> state" where
  "restore_apply env filename filepath s =
     (let s1 = s\<lparr>temp_dir := insert filepath (temp_dir s)\<rparr>;
          s2 = log (''Backup file downloaded: '' @ filename @ '', restoring database...'') False s1;
          s3 = emit ''Restoring database...'' (JNum 80) s2
      in case psql env of
           Rejected msg \<Rightarrow> restore_catch msg s3
         | Resolved _ \<Rightarrow>
             (let s4 = s3\<lparr>restored := restored s3 @ [(db_name env, filepath)]\<rparr>;
                  s5 = log (''Database restored successfully from: '' @ filename) True s4;
                  s6 = emit ''Restore completed'' (JNum 100) s5
              in case unlink env of
                   Rejected msg \<Rightarrow> restore_catch msg s6
                 | Resolved _ \<Rightarrow>
                     (let s7 = s6\<lparr>temp_dir := temp_dir s6 - {filepath}\<rparr>;
                          s8 = log (''Temporary file deleted: '' @ filepath) False s7
                      in (Redirect ''/'', s8))))"

definition restore_route :: "collaborators \<Rightarrow> string \<Rightarrow> state \<Rightarrow> response \<times> state" where
  "restore_route env filename s =
     (let filepath = temp_path filename;
          s1 = log (''Starting restore process: '' @ filename) False s;
          s2 = emit ''Starting restore...'' (JNum 0) s1
      in case head_object env of
           Rejected msg \<Rightarrow> restore_catch msg s2
         | Resolved fileSize \<Rightarrow>
             (let s3 = on_data True ''Downloading...'' restore_percentage fileSize 0 (chunks env) s2
              in case write_stream env of
                   Rejected msg \<Rightarrow>
                     (case error_from env of
                        ObjectStream \<Rightarrow> (Uncaught msg, s3)
                      | FileStream \<Rightarrow>
                          (let (res, s4) = restore_catch msg s3
                           in (res, late_data True ''Downloading...'' restore_percentage fileSize env s4)))
                 | Resolved _ \<Rightarrow> restore_apply env filename filepath s3))"

subsection \<open>Delete (lines 210 to 221)\<close>

definition delete_route :: "collaborators \<Rightarrow> string \<Rightarrow> state \<Rightarrow> response \<times> state" where
  "delete_route env filename s =
     (let s1 = log (''Deleting backup: '' @ filename) False s
      in case delete_object env of
           Rejected msg \<Rightarrow> (Status 500 ''Delete failed'', log (''Delete failed: '' @ msg) True s1)
         | Resolved _ \<Rightarrow>
             (let s2 = s1\<lparr>bucket := bucket s1 - {filename}\<rparr>;
                  s3 = log (''Backup deleted successfully: '' @ filename) True s2
              in (Redirect ''/'', s3)))"

subsection \<open>Disaster recovery (lines 239 to 294)\<close>

definition recovery_catch :: "string \<Rightarrow> state \<Rightarrow> response \<times> state" where
  "recovery_catch msg s =
     (let s1 = log (''Disaster recovery failed: '' @ msg) True s;
          s2 = emit ''Disaster recovery failed'' (JNum (- 1)) s1
      in (Status 500 ''Disaster recovery failed'', s2))"

definition recovery_apply :: "collaborators \<Rightarrow> string \<Rightarrow> string \<Rightarrow> string \<Rightarrow> state \<Rightarrow> response \<times> state" where
  "recovery_apply env filename tempDbName filepath s =
     (let s1 = s\<lparr>temp_dir := insert filepath (temp_dir s)\<rparr>;
          s2 = log (''Backup downloaded: '' @ filename) False s1;
          s3 = emit ''Restoring to temporary database...'' (JNum 80) s2
      in case psql env of
           Rejected msg \<Rightarrow> recovery_catch msg s3
         | Resolved _ \<Rightarrow>
             (let s4 = s3\<lparr>restored := restored s3 @ [(tempDbName, filepath)]\<rparr>;
                  s5 = log (''Temporary database restored: '' @ tempDbName) True s4;
                  s6 = emit ''Disaster recovery completed'' (JNum 100) s5
              in case unlink env of
                   Rejected msg \<Rightarrow> recovery_catch msg s6
                 | Resolved _ \<Rightarrow>
                     (let s7 = s6\<lparr>temp_dir := temp_dir s6 - {filepath}\<rparr>;
                          s8 = log (''Temporary file deleted: '' @ filepath) False s7
                      in (Redirect ''/'', s8))))"

definition recovery_download :: "collaborators \<Rightarrow> string \<Rightarrow> string \<Rightarrow> string \<Rightarrow> state \<Rightarrow> response \<times> state" where
  "recovery_download env filename tempDbName filepath s =
     (let s1 = s\<lparr>created_dbs := created_dbs s @ [tempDbName]\<rparr>;
          s2 = log (''Temporary database created: '' @ tempDbName) False s1;
          s3 = emit ''Temporary database created...'' (JNum 10) s2
      in case head_object env of
           Rejected msg \<Rightarrow> recovery_catch msg s3
         | Resolved fileSize \<Rightarrow>
             (let s4 = on_data True ''Downloading backup...'' recovery_percentage fileSize 0 (chunks env) s3
              in case write_stream env of
                   Rejected msg \<Rightarrow>
                     (case error_from env of
                        ObjectStream \<Rightarrow> (Uncaught msg, s4)
                      | FileStream \<Rightarrow>
                          (let (res, s5) = recovery_catch msg s4
                           in (res, late_data True ''Downloading backup...'' recovery_percentage fileSize env s5)))
                 | Resolved _ \<Rightarrow> recovery_apply env filename tempDbName filepath s4))"

definition recovery_route :: "collaborators \<Rightarrow> string \<Rightarrow> state \<Rightarrow> response \<times> state" where
  "recovery_route env filename s =
     (let tempDbName = ''recovery_'' @ show_nat (date_now env);
          filepath = temp_path filename;
          s1 = log (''Starting disaster recovery with temporary database: '' @ tempDbName) False s;
          s2 = emit ''Starting disaster recovery...'' (JNum 0) s1
      in case createdb env of
           Rejected msg \<Rightarrow> recovery_catch msg s2
         | Resolved _ \<Rightarrow> recovery_download env filename tempDbName filepath s2)"

section \<open>Properties of event sequences\<close>

text \<open>
  The client (\<^verbatim>\<open>public/script.js\<close>, line 9) takes an event for terminal when
  \<^verbatim>\<open>data.percentage === 100 || data.percentage === -1\<close>: strict equality with a number,
  which no string satisfies.
\<close>

definition terminal :: "progress_event \<Rightarrow> bool" where
  "terminal e = (percentage e = JNum 100 \<or> percentage e = JNum (- 1))"

text \<open>The events a run has added to those emitted before it.\<close>

definition new_events :: "state \<Rightarrow> state \<Rightarrow> progress_event list" where
  "new_events s s' = drop (length (emitted s)) (emitted s')"

definition new_entries :: "state \<Rightarrow> state \<Rightarrow> audit_entry list" where
  "new_entries s s' = drop (length (audit s)) (audit s')"

definition new_mails :: "state \<Rightarrow> state \<Rightarrow> string list" where
  "new_mails s s' = drop (length (mails s)) (mails s')"

text \<open>Every percentage denotes a number, and the numbers do not decrease.\<close>

definition nondecreasing :: "jsval list \<Rightarrow> bool" where
  "nondecreasing ps =
     (list_all (\<lambda>p. pct_value p \<noteq> None) ps \<and> sorted (map (\<lambda>p. the (pct_value p)) ps))"

text \<open>
  The shape the specification asks of one run: percentages that do not decrease up to a
  terminal event, which is the last event and the only terminal one.
\<close>

definition run_shape :: "progress_event list \<Rightarrow> bool" where
  "run_shape evs =
     (evs \<noteq> [] \<and> terminal (last evs) \<and> \<not> list_ex terminal (butlast evs) \<and>
      nondecreasing (map percentage (butlast evs)))"

text \<open>
  The chunks of a transfer stay within the announced size, where a size was announced
  at all (\<^verbatim>\<open>statSync\<close> or \<^verbatim>\<open>headObject\<close> may have failed before any chunk).
\<close>

definition chunks_fit :: "nat \<Rightarrow> nat list \<Rightarrow> bool" where
  "chunks_fit fileSize cs = (sum_list cs \<le> fileSize \<and> (cs = [] \<or> 0 < fileSize))"

definition transfer_fits :: "nat outcome \<Rightarrow> nat list \<Rightarrow> bool" where
  "transfer_fits announced cs =
     (case announced of Resolved fileSize \<Rightarrow> chunks_fit fileSize cs | Rejected msg \<Rightarrow> True)"

text \<open>A decimal numeral with exactly two fraction digits, such as \<^verbatim>\<open>32.50\<close>.\<close>

definition two_decimals :: "string \<Rightarrow> bool" where
  "two_decimals str =
     (takeWhile is_digit str \<noteq> [] \<and>
      (case dropWhile is_digit str of
         [] \<Rightarrow> False
       | c # fp \<Rightarrow> c = CHR ''.'' \<and> length fp = 2 \<and> list_all is_digit fp))"

text \<open>
  The form of one event as the code produces it, whatever the collaborators answer: the
  percentage is one of the five number literals, or a string, which is a two-decimal
  numeral or one of the names \<^verbatim>\<open>toFixed\<close> gives to a number that is not finite.
\<close>

definition event_form :: "progress_event \<Rightarrow> bool" where
  "event_form e =
     (case percentage e of
        JNum r \<Rightarrow> r = - 1 \<or> r = 0 \<or> r = 10 \<or> r = 80 \<or> r = 100
      | JStr str \<Rightarrow> two_decimals str \<or> str = ''Infinity'' \<or> str = ''NaN'')"

text \<open>
  The form of an event of a transfer that fits: a string percentage is a two-decimal
  numeral and denotes a number between 0 and 100.
\<close>

definition event_ok :: "progress_event \<Rightarrow> bool" where
  "event_ok e =
     (case percentage e of
        JNum r \<Rightarrow> r = - 1 \<or> r = 0 \<or> r = 10 \<or> r = 80 \<or> r = 100
      | JStr str \<Rightarrow>
          two_decimals str \<and>
          (case pct_value (JStr str) of None \<Rightarrow> False | Some v \<Rightarrow> 0 \<le> v \<and> v \<le> 100))"

text \<open>
  The error a run raises: the message of the first awaited step, in program order, that
  rejects; \<open>None\<close> when every step resolves.
\<close>

definition rejection :: "'a outcome \<Rightarrow> string option" where
  "rejection r = (case r of Resolved v \<Rightarrow> None | Rejected msg \<Rightarrow> Some msg)"

fun first_rejection :: "string option list \<Rightarrow> string option" where
  "first_rejection [] = None"
| "first_rejection (None # rs) = first_rejection rs"
| "first_rejection (Some msg # rs) = Some msg"

definition backup_error :: "collaborators \<Rightarrow> string option" where
  "backup_error env =
     first_rejection [rejection (pg_dump env), rejection (stat_size env),
       rejection (cos_upload env), rejection (unlink env)]"

definition restore_error :: "collaborators \<Rightarrow> string option" where
  "restore_error env =
     first_rejection [rejection (head_object env), rejection (write_stream env),
       rejection (psql env), rejection (unlink env)]"

definition recovery_error :: "collaborators \<Rightarrow> string option" where
  "recovery_error env =
     first_rejection [rejection (createdb env), rejection (head_object env),
       rejection (write_stream env), rejection (psql env), rejection (unlink env)]"


section \<open>Concrete inputs\<close>

text \<open>An instant, a server that has done nothing yet, and collaborators that all succeed.\<close>

definition new_year :: js_date where
  "new_year = \<lparr>utc_year = 2024, utc_month = 1, utc_day = 1, utc_hours = 12,
     utc_minutes = 0, utc_seconds = 0, utc_millis = 0\<rparr>"

definition fresh :: state where
  "fresh = \<lparr>wall_clock = (\<lambda>n. new_year), ticks = 0, audit = [], mails = [], emitted = [],
     temp_dir = {}, bucket = {}, created_dbs = [], restored = []\<rparr>"

definition healthy :: collaborators where
  "healthy = \<lparr>pg_dump = Resolved (), stat_size = Resolved 4, chunks = [1, 3],
     late_chunks = [], cos_upload = Resolved (), head_object = Resolved 4,
     write_stream = Resolved (), error_from = FileStream, psql = Resolved (),
     createdb = Resolved (), delete_object = Resolved (), unlink = Resolved (),
     date_now = 1704110400000, db_name = ''appdb''\<rparr>"

section \<open>Verification\<close>

subsection \<open>Decimal digits and numerals\<close>

declare show_nat.simps [simp del]

lemma digit_cases:
  "d < 10 \<Longrightarrow> d = 0 \<or> d = 1 \<or> d = 2 \<or> d = 3 \<or> d = 4 \<or> d = 5 \<or> d = 6 \<or> d = 7 \<or> d = 8 \<or> d = (9::nat)"
  by arith

lemma is_digit_digit_char [simp]: "is_digit (digit_char d)"
  using digit_cases [of "d mod 10"] by (auto simp: is_digit_def digit_char_def)

lemma digit_val_digit_char [simp]: "digit_val (digit_char d) = d mod 10"
  using digit_cases [of "d mod 10"] by (auto simp: digit_val_def digit_char_def)

lemma not_digit_simps [simp]:
  "\<not> is_digit (CHR ''.'')" "\<not> is_digit (CHR ''-'')" "\<not> is_digit (CHR ''+'')"
  "\<not> is_digit (CHR '':'')" "\<not> is_digit (CHR ''T'')" "\<not> is_digit (CHR ''Z'')"
  by (simp_all add: is_digit_def)

lemma digit_char_neq [simp]:
  "digit_char d \<noteq> CHR ''.''" "digit_char d \<noteq> CHR ''-''" "digit_char d \<noteq> CHR '':''"
  using is_digit_digit_char [of d] by (auto simp del: is_digit_digit_char)

lemma read_nat_snoc [simp]: "read_nat (xs @ [c]) = 10 * read_nat xs + digit_val c"
  by (simp add: read_nat_def)

lemma read_nat_Nil [simp]: "read_nat [] = 0"
  by (simp add: read_nat_def)

lemma read_nat_single [simp]: "read_nat [c] = digit_val c"
  by (simp add: read_nat_def)

lemma pad_digits_numeral [simp]:
  "pad_digits (numeral k) n = pad_digits (pred_numeral k) (n div 10) @ [digit_char n]"
  by (simp only: numeral_eq_Suc [of k] pad_digits.simps)

lemma length_pad_digits [simp]: "length (pad_digits k n) = k"
  by (induction k arbitrary: n) simp_all

lemma digits_pad_digits [simp]: "list_all is_digit (pad_digits k n)"
  by (induction k arbitrary: n) simp_all

lemma read_nat_pad_digits: "read_nat (pad_digits k n) = n mod 10 ^ k"
proof (induction k arbitrary: n)
  case 0
  show ?case by simp
next
  case (Suc k)
  have "10 * (n div 10 mod 10 ^ k) + n mod 10 = n mod (10 * 10 ^ k)"
    by (simp add: mod_mult2_eq)
  with Suc show ?case by simp
qed

lemma pad_digits_inject:
  assumes "pad_digits k a = pad_digits k b" "a < 10 ^ k" "b < 10 ^ k"
  shows "a = b"
proof -
  from assms(1) have "read_nat (pad_digits k a) = read_nat (pad_digits k b)"
    by (rule arg_cong)
  then have "a mod 10 ^ k = b mod 10 ^ k"
    by (simp only: read_nat_pad_digits)
  with assms(2,3) show ?thesis
    by simp
qed

lemma show_nat_small: "n < 10 \<Longrightarrow> show_nat n = [digit_char n]"
  by (subst show_nat.simps) simp

lemma show_nat_large: "10 \<le> n \<Longrightarrow> show_nat n = show_nat (n div 10) @ [digit_char n]"
  by (subst show_nat.simps) simp

lemma digits_show_nat [simp]: "list_all is_digit (show_nat n)"
  by (induction n rule: show_nat.induct) (subst show_nat.simps, simp)

lemma show_nat_not_Nil [simp]: "show_nat n \<noteq> []"
  by (cases "n < 10") (simp_all add: show_nat_small show_nat_large)

lemma read_nat_show_nat [simp]: "read_nat (show_nat n) = n"
proof (induction n rule: show_nat.induct)
  case (1 n)
  show ?case
  proof (cases "n < 10")
    case True
    then show ?thesis by (simp add: show_nat_small)
  next
    case False
    with 1 show ?thesis by (simp add: show_nat_large)
  qed
qed

subsection \<open>Two-decimal strings and rounding\<close>

lemma takeWhile_digits:
  "list_all is_digit ds \<Longrightarrow> \<not> is_digit c \<Longrightarrow> takeWhile is_digit (ds @ c # r) = ds"
  by (induction ds) simp_all

lemma dropWhile_digits:
  "list_all is_digit ds \<Longrightarrow> \<not> is_digit c \<Longrightarrow> dropWhile is_digit (ds @ c # r) = c # r"
  by (induction ds) simp_all

lemma read_decimal_fixed2: "read_decimal (fixed2 n) = Some (rat_of_nat n / 100)"
proof -
  have "n = 100 * (n div 100) + n mod 100"
    by simp
  then have "rat_of_nat n = rat_of_nat (100 * (n div 100) + n mod 100)"
    by simp
  then have "rat_of_nat n = 100 * rat_of_nat (n div 100) + rat_of_nat (n mod 100)"
    by (simp only: of_nat_add of_nat_mult of_nat_numeral)
  then have eq: "rat_of_nat (n div 100) + rat_of_nat (n mod 100) / 100 = rat_of_nat n / 100"
    by simp
  have ip: "list_all is_digit (show_nat (n div 100))" and ne: "show_nat (n div 100) \<noteq> []"
    by simp_all
  have fp: "list_all is_digit (pad_digits 2 (n mod 100))"
    by (rule digits_pad_digits)
  have len: "length (pad_digits 2 (n mod 100)) = 2"
    by (rule length_pad_digits)
  have rd: "read_nat (pad_digits 2 (n mod 100)) = n mod 100"
    using read_nat_pad_digits [of 2 "n mod 100"] by simp
  have tw: "takeWhile is_digit (fixed2 n) = show_nat (n div 100)"
    unfolding fixed2_def using takeWhile_digits [OF ip, of "CHR ''.''"] by simp
  have dw: "dropWhile is_digit (fixed2 n) = CHR ''.'' # pad_digits 2 (n mod 100)"
    unfolding fixed2_def using dropWhile_digits [OF ip, of "CHR ''.''"] by simp
  have nonempty: "pad_digits 2 (n mod 100) \<noteq> []"
    using len by auto
  show ?thesis
    unfolding read_decimal_def Let_def tw dw
    using ne fp len rd nonempty eq by (simp del: pad_digits_numeral)
qed

lemma fixed2_hd: "\<exists>c t. fixed2 n = c # t \<and> c \<noteq> CHR ''-''"
proof -
  obtain c t where ct: "show_nat (n div 100) = c # t"
    using show_nat_not_Nil [of "n div 100"] by (cases "show_nat (n div 100)") auto
  have "is_digit c"
    using digits_show_nat [of "n div 100"] ct by simp
  then have "c \<noteq> CHR ''-''"
    by auto
  with ct show ?thesis by (simp add: fixed2_def)
qed

lemma pct_value_fixed2 [simp]: "pct_value (JStr (fixed2 n)) = Some (rat_of_nat n / 100)"
proof -
  obtain c t where ct: "fixed2 n = c # t" and c: "c \<noteq> CHR ''-''"
    using fixed2_hd [of n] by blast
  have "pct_value (JStr (fixed2 n)) = read_decimal (fixed2 n)"
    by (simp add: ct c pct_value.simps)
  then show ?thesis
    by (simp only: read_decimal_fixed2)
qed


declare pct_value.simps(2) [simp del]

lemma floor_rat_numeral [simp]: "\<lfloor>numeral a / numeral b :: rat\<rfloor> = numeral a div numeral b"
  by (metis floor_divide_of_int_eq of_int_numeral)

lemma hundredths_mono: "x \<le> y \<Longrightarrow> hundredths x \<le> hundredths y"
  unfolding hundredths_def by (intro nat_mono floor_mono) simp

lemma hundredths_of_nat [simp]: "hundredths (rat_of_nat k) = 100 * k"
proof -
  have "\<lfloor>rat_of_nat k * 100 + 1 / 2\<rfloor> = int (100 * k)"
    by (rule floor_unique) simp_all
  then show ?thesis
    by (simp add: hundredths_def)
qed

lemma round2_mono: "x \<le> y \<Longrightarrow> round2 x \<le> round2 y"
  by (simp add: round2_def hundredths_mono divide_right_mono)

lemma round2_of_nat [simp]: "round2 (rat_of_nat k) = rat_of_nat k"
  by (simp add: round2_def)

lemma round2_near:
  assumes "0 \<le> x"
  shows "\<bar>round2 x - x\<bar> \<le> 1 / 200"
proof -
  define z where "z = \<lfloor>x * 100 + 1 / 2\<rfloor>"
  have lo: "of_int z \<le> x * 100 + 1 / 2" and hi: "x * 100 + 1 / 2 < of_int z + 1"
    unfolding z_def by linarith+
  have "0 \<le> z"
    unfolding z_def using assms by simp
  then have "rat_of_nat (hundredths x) = of_int z"
    by (simp add: hundredths_def z_def)
  then have r: "round2 x = of_int z / 100"
    by (simp add: round2_def)
  from lo have "rat_of_int z / 100 \<le> x + 1 / 200"
    by (simp add: field_simps)
  moreover from hi have "x - 1 / 200 \<le> rat_of_int z / 100"
    by (simp add: field_simps)
  ultimately show ?thesis
    unfolding r by linarith
qed

subsection \<open>Rounding to a double\<close>

lemma pow2_split: "(2::rat) powi (a + b) = 2 powi a * 2 powi b"
  by (simp add: power_int_add)

lemma pow2_mono: "a \<le> b \<Longrightarrow> (2::rat) powi a \<le> 2 powi b"
  by (rule power_int_increasing) simp_all

lemma pow2_strict_mono: "a < b \<Longrightarrow> (2::rat) powi a < 2 powi b"
  by (rule power_int_strict_increasing) simp_all

lemma pow2_less_cancel: "(2::rat) powi a < 2 powi b \<Longrightarrow> a < b"
  using pow2_mono [of b a] by (cases "a < b") simp_all

lemma bitlen_pow2_bounds:
  assumes "0 < p"
  shows "(2::rat) powi (bitlen p - 1) \<le> of_int p" and "of_int p < (2::rat) powi bitlen p"
proof -
  from assms have b: "1 \<le> bitlen p"
    using bitlen_eq_zero_iff [of p] bitlen_nonneg [of p] by linarith
  from bitlen_bounds [OF assms]
  have lo: "2 ^ nat (bitlen p - 1) \<le> p" and hi: "p < 2 ^ nat (bitlen p)"
    by simp_all
  from lo have "rat_of_int (2 ^ nat (bitlen p - 1)) \<le> of_int p"
    by (simp only: of_int_le_iff)
  then show "(2::rat) powi (bitlen p - 1) \<le> of_int p"
    using b by (simp add: power_int_nonneg_exp)
  from hi have "rat_of_int p < of_int (2 ^ nat (bitlen p))"
    by (simp only: of_int_less_iff)
  then show "of_int p < (2::rat) powi bitlen p"
    using b by (simp add: power_int_nonneg_exp)
qed

lemma binade_bounds:
  assumes "0 < x"
  shows "2 powi binade x \<le> x" and "x < 2 powi (binade x + 1)"
proof -
  obtain p q where pq: "quotient_of x = (p, q)"
    by force
  have q: "0 < q"
    using pq by (rule quotient_of_denom_pos)
  have x: "x = of_int p / of_int q"
    using pq by (rule quotient_of_div)
  with assms q have p: "0 < p"
    by (simp add: zero_less_divide_iff)
  define d where "d = bitlen p - bitlen q"
  have xq: "x * of_int q = of_int p"
    using x q by simp
  have "x * of_int q < 2 powi bitlen p"
    unfolding xq by (rule bitlen_pow2_bounds(2) [OF p])
  also have "\<dots> = 2 powi (d + 1) * 2 powi (bitlen q - 1)"
    unfolding pow2_split [symmetric] d_def by simp
  also have "\<dots> \<le> 2 powi (d + 1) * of_int q"
    using bitlen_pow2_bounds(1) [OF q] by (intro mult_left_mono) simp_all
  finally have up: "x < 2 powi (d + 1)"
    using q by simp
  have "2 powi (d - 1) * rat_of_int q < 2 powi (d - 1) * 2 powi bitlen q"
    using bitlen_pow2_bounds(2) [OF q] by (intro mult_strict_left_mono) simp_all
  also have "\<dots> = 2 powi (bitlen p - 1)"
    unfolding pow2_split [symmetric] d_def by simp
  also have "\<dots> \<le> x * of_int q"
    unfolding xq by (rule bitlen_pow2_bounds(1) [OF p])
  finally have low: "2 powi (d - 1) < x"
    using q by simp
  have b: "binade x = (if 2 powi d \<le> x then d else d - 1)"
    by (simp add: binade_def pq d_def Let_def)
  show "2 powi binade x \<le> x"
    using low by (simp add: b)
  show "x < 2 powi (binade x + 1)"
    using up by (simp add: b not_le)
qed

lemma binade_unique:
  assumes "0 < x" and "2 powi e \<le> x" and "x < 2 powi (e + 1)"
  shows "binade x = e"
proof -
  have "2 powi e < (2::rat) powi (binade x + 1)"
    using assms(2) binade_bounds(2) [OF assms(1)] by (rule le_less_trans)
  then have "e < binade x + 1"
    by (rule pow2_less_cancel)
  moreover have "2 powi binade x < (2::rat) powi (e + 1)"
    using binade_bounds(1) [OF assms(1)] assms(3) by (rule le_less_trans)
  then have "binade x < e + 1"
    by (rule pow2_less_cancel)
  ultimately show ?thesis
    by simp
qed

lemma round_half_even_near: "\<bar>rat_of_int (round_half_even q) - q\<bar> \<le> 1 / 2"
proof -
  have "of_int \<lfloor>q\<rfloor> \<le> q" and "q < of_int \<lfloor>q\<rfloor> + 1"
    by linarith+
  then show ?thesis
    by (auto simp: round_half_even_def Let_def)
qed

lemma round_half_even_int [simp]: "round_half_even (of_int k) = k"
  by (simp add: round_half_even_def)

lemma round_half_even_mono:
  assumes "q \<le> r"
  shows "round_half_even q \<le> round_half_even r"
proof (cases "\<lfloor>q\<rfloor> = \<lfloor>r\<rfloor>")
  case True
  with assms show ?thesis
    by (auto simp: round_half_even_def Let_def)
next
  case False
  with assms have "\<lfloor>q\<rfloor> + 1 \<le> \<lfloor>r\<rfloor>"
    using floor_mono [OF assms] by simp
  moreover have "round_half_even q \<le> \<lfloor>q\<rfloor> + 1"
    by (simp add: round_half_even_def Let_def)
  moreover have "\<lfloor>r\<rfloor> \<le> round_half_even r"
    by (simp add: round_half_even_def Let_def)
  ultimately show ?thesis
    by linarith
qed

lemma fl_zero [simp]: "fl 0 = 0"
  by (simp add: fl_def)

lemma fl_pos:
  assumes "0 < x"
  shows "fl x = of_int (round_half_even (x / 2 powi (binade x - 52))) * 2 powi (binade x - 52)"
  using assms by (simp add: fl_def Let_def)

lemma fl_in_binade:
  assumes "0 < x" and "2 powi e \<le> x" and "x < 2 powi (e + 1)"
  shows "fl x = of_int (round_half_even (x / 2 powi (e - 52))) * 2 powi (e - 52)"
  using fl_pos [OF assms(1)] binade_unique [OF assms] by simp

lemma significand_bounds:
  assumes "0 < x"
  shows "2 ^ 52 \<le> round_half_even (x / 2 powi (binade x - 52))"
    and "round_half_even (x / 2 powi (binade x - 52)) \<le> 2 ^ 53"
proof -
  let ?u = "(2::rat) powi (binade x - 52)"
  have u: "0 < ?u"
    by simp
  have "2 powi 52 * ?u = 2 powi binade x"
    unfolding pow2_split [symmetric] by simp
  with binade_bounds(1) [OF assms] have "2 powi 52 * ?u \<le> x"
    by simp
  then have "rat_of_int (2 ^ 52) \<le> x / ?u"
    using u by (simp add: pos_le_divide_eq)
  from round_half_even_mono [OF this] show "2 ^ 52 \<le> round_half_even (x / ?u)"
    by (simp only: round_half_even_int)
  have "2 powi 53 * ?u = 2 powi (binade x + 1)"
    unfolding pow2_split [symmetric] by (simp add: add.commute)
  with binade_bounds(2) [OF assms] have "x \<le> 2 powi 53 * ?u"
    by simp
  then have "x / ?u \<le> rat_of_int (2 ^ 53)"
    using u by (simp add: pos_divide_le_eq)
  from round_half_even_mono [OF this] show "round_half_even (x / ?u) \<le> 2 ^ 53"
    by (simp only: round_half_even_int)
qed

lemma fl_bounds:
  assumes "0 < x"
  shows "2 powi binade x \<le> fl x" and "fl x \<le> 2 powi (binade x + 1)"
proof -
  let ?u = "(2::rat) powi (binade x - 52)"
  let ?n = "round_half_even (x / ?u)"
  have u: "0 < ?u"
    by simp
  have lo: "2 powi 52 * ?u = 2 powi binade x" and hi: "2 powi 53 * ?u = 2 powi (binade x + 1)"
    unfolding pow2_split [symmetric] by (simp_all add: add.commute)
  have "rat_of_int (2 ^ 52) \<le> of_int ?n"
    using significand_bounds(1) [OF assms] by (simp only: of_int_le_iff)
  then have "2 powi 52 * ?u \<le> of_int ?n * ?u"
    using u by (intro mult_right_mono) simp_all
  then show "2 powi binade x \<le> fl x"
    unfolding lo fl_pos [OF assms] .
  have "rat_of_int ?n \<le> of_int (2 ^ 53)"
    using significand_bounds(2) [OF assms] by (simp only: of_int_le_iff)
  then have "of_int ?n * ?u \<le> 2 powi 53 * ?u"
    using u by (intro mult_right_mono) simp_all
  then show "fl x \<le> 2 powi (binade x + 1)"
    unfolding hi fl_pos [OF assms] .
qed

lemma fl_nonneg: "0 \<le> x \<Longrightarrow> 0 \<le> fl x"
proof (cases "x = 0")
  case True
  then show ?thesis by simp
next
  case False
  assume "0 \<le> x"
  with False have "0 < x" by simp
  moreover have "0 < (2::rat) powi binade x" by simp
  ultimately show ?thesis
    using fl_bounds(1) [of x] by linarith
qed

lemma fl_mono:
  assumes "0 \<le> x" and "x \<le> y"
  shows "fl x \<le> fl y"
proof (cases "x = 0")
  case True
  with assms show ?thesis
    by (simp add: fl_nonneg)
next
  case False
  with assms have x: "0 < x" and y: "0 < y"
    by simp_all
  have "2 powi binade x < (2::rat) powi (binade y + 1)"
    using binade_bounds(1) [OF x] assms(2) binade_bounds(2) [OF y] by linarith
  then have le: "binade x \<le> binade y"
    using pow2_less_cancel [of "binade x" "binade y + 1"] by simp
  show ?thesis
  proof (cases "binade x = binade y")
    case True
    let ?u = "(2::rat) powi (binade y - 52)"
    have "x / ?u \<le> y / ?u"
      using assms(2) by (intro divide_right_mono) simp_all
    from round_half_even_mono [OF this]
    have "rat_of_int (round_half_even (x / ?u)) \<le> of_int (round_half_even (y / ?u))"
      by (simp only: of_int_le_iff)
    then have "of_int (round_half_even (x / ?u)) * ?u \<le> of_int (round_half_even (y / ?u)) * ?u"
      by (intro mult_right_mono) simp_all
    then show ?thesis
      unfolding fl_pos [OF x] fl_pos [OF y] True .
  next
    case False
    with le have "binade x + 1 \<le> binade y"
      by simp
    then have "(2::rat) powi (binade x + 1) \<le> 2 powi binade y"
      by (rule pow2_mono)
    with fl_bounds(2) [OF x] fl_bounds(1) [OF y] show ?thesis
      by linarith
  qed
qed

lemma fl_error:
  assumes "0 \<le> x"
  shows "\<bar>fl x - x\<bar> \<le> x / 2 ^ 53"
proof (cases "x = 0")
  case True
  then show ?thesis by simp
next
  case False
  with assms have x: "0 < x" by simp
  let ?u = "(2::rat) powi (binade x - 52)"
  let ?n = "round_half_even (x / ?u)"
  have u: "0 < ?u"
    by simp
  have "\<bar>of_int ?n - x / ?u\<bar> * ?u \<le> 1 / 2 * ?u"
    using round_half_even_near [of "x / ?u"] u by (intro mult_right_mono) simp_all
  moreover have "\<bar>of_int ?n - x / ?u\<bar> * ?u = \<bar>of_int ?n * ?u - x\<bar>"
  proof -
    have "\<bar>of_int ?n - x / ?u\<bar> * ?u = \<bar>(of_int ?n - x / ?u) * ?u\<bar>"
      using u by (simp add: abs_mult)
    also have "(of_int ?n - x / ?u) * ?u = of_int ?n * ?u - x"
      using u by (simp add: algebra_simps)
    finally show ?thesis .
  qed
  ultimately have near: "\<bar>fl x - x\<bar> \<le> 1 / 2 * ?u"
    unfolding fl_pos [OF x] by simp
  have "?u * 2 ^ 53 = 2 * 2 powi binade x"
  proof -
    have "?u * 2 powi 53 = 2 powi (binade x + 1)"
      unfolding pow2_split [symmetric] by (simp add: add.commute)
    then show ?thesis
      by (simp add: pow2_split)
  qed
  then have "1 / 2 * ?u = 2 powi binade x / 2 ^ 53"
    by (simp add: field_simps)
  also have "\<dots> \<le> x / 2 ^ 53"
    using binade_bounds(1) [OF x] by (intro divide_right_mono) simp_all
  finally show ?thesis
    using near by linarith
qed

lemma fl_exact:
  assumes "0 < m" and "m < 2 ^ 53" and "x = of_int m * 2 powi k"
  shows "fl x = x"
proof -
  have x: "0 < x"
    using assms(1,3) by simp
  let ?e = "binade x"
  let ?u = "(2::rat) powi (?e - 52)"
  have "rat_of_int m < of_int (2 ^ 53)"
    using assms(2) by (simp only: of_int_less_iff)
  then have "of_int m * 2 powi k < (2::rat) powi 53 * 2 powi k"
    by (intro mult_strict_right_mono) simp_all
  then have "x < 2 powi (53 + k)"
    unfolding assms(3) pow2_split .
  with binade_bounds(1) [OF x] have "2 powi ?e < (2::rat) powi (53 + k)"
    by linarith
  then have "?e < 53 + k"
    by (rule pow2_less_cancel)
  define j where "j = nat (k - (?e - 52))"
  with \<open>?e < 53 + k\<close> have j: "k = ?e - 52 + int j"
    by simp
  have "2 powi k = ?u * 2 ^ j"
    by (subst j) (simp add: pow2_split)
  then have xu: "x = rat_of_int (m * 2 ^ j) * ?u"
    unfolding assms(3) by (simp add: mult.commute)
  then have "x / ?u = rat_of_int (m * 2 ^ j)"
    by (simp add: divide_eq_eq)
  then have "round_half_even (x / ?u) = m * 2 ^ j"
    by (simp only: round_half_even_int)
  then show ?thesis
    using fl_pos [OF x] xu by simp
qed

lemma fl_numeral [simp]: "numeral w < (2::int) ^ 53 \<Longrightarrow> fl (numeral w) = numeral w"
  using fl_exact [of "numeral w" "numeral w" 0] by simp

lemma fl_one [simp]: "fl 1 = 1"
  using fl_exact [of 1 1 0] by simp

subsection \<open>The percentage of each phase\<close>

lemma round2_numeral [simp]: "round2 (numeral k) = numeral k"
  using round2_of_nat [of "numeral k"] by simp

lemma round2_zero [simp]: "round2 0 = 0"
  using round2_of_nat [of 0] by simp

lemma ratio_bounds:
  assumes "0 < S" "b \<le> S"
  shows "0 \<le> rat_of_nat b / rat_of_nat S" "rat_of_nat b / rat_of_nat S \<le> 1"
  using assms by simp_all

lemma ratio_mono:
  assumes "0 < S" "a \<le> b"
  shows "rat_of_nat a / rat_of_nat S \<le> rat_of_nat b / rat_of_nat S"
  using assms by (simp add: divide_right_mono)

text \<open>The three roundings of a percentage: of the ratio, of the product, of the sum.\<close>

lemma ratio_double:
  assumes "0 \<le> r" and "r \<le> 1"
  shows "0 \<le> fl r" and "fl r \<le> 1" and "\<bar>fl r - r\<bar> \<le> 1 / 2 ^ 53"
proof -
  show "0 \<le> fl r"
    using assms(1) by (rule fl_nonneg)
  show "fl r \<le> 1"
    using fl_mono [OF assms] by simp
  have "\<bar>fl r - r\<bar> \<le> r / 2 ^ 53"
    using assms(1) by (rule fl_error)
  also have "\<dots> \<le> 1 / 2 ^ 53"
    using assms(2) by (intro divide_right_mono) simp_all
  finally show "\<bar>fl r - r\<bar> \<le> 1 / 2 ^ 53" .
qed

lemma product_double:
  assumes "0 \<le> x" and "x \<le> 1" and "\<bar>x - r\<bar> \<le> 1 / 2 ^ 53" and "0 \<le> k" and "fl k = k"
  shows "0 \<le> fl (x * k)" and "fl (x * k) \<le> k" and "\<bar>fl (x * k) - r * k\<bar> \<le> 2 * k / 2 ^ 53"
proof -
  have xk: "0 \<le> x * k" "x * k \<le> k"
    using assms(1,2,4) by (simp_all add: mult_left_le_one_le)
  show "0 \<le> fl (x * k)"
    using xk(1) by (rule fl_nonneg)
  show "fl (x * k) \<le> k"
    using fl_mono [OF xk] assms(5) by simp
  have "\<bar>fl (x * k) - x * k\<bar> \<le> x * k / 2 ^ 53"
    using xk(1) by (rule fl_error)
  also have "\<dots> \<le> k / 2 ^ 53"
    using xk(2) by (intro divide_right_mono) simp_all
  finally have e1: "\<bar>fl (x * k) - x * k\<bar> \<le> k / 2 ^ 53" .
  have "\<bar>x * k - r * k\<bar> = \<bar>x - r\<bar> * k"
    using assms(4) by (simp add: abs_mult left_diff_distrib [symmetric])
  also have "\<dots> \<le> 1 / 2 ^ 53 * k"
    using assms(3,4) by (intro mult_right_mono) simp_all
  finally have e2: "\<bar>x * k - r * k\<bar> \<le> k / 2 ^ 53"
    by simp
  have "\<bar>fl (x * k) - r * k\<bar> \<le> \<bar>fl (x * k) - x * k\<bar> + \<bar>x * k - r * k\<bar>"
    by simp
  also have "\<dots> \<le> k / 2 ^ 53 + k / 2 ^ 53"
    using e1 e2 by (rule add_mono)
  finally show "\<bar>fl (x * k) - r * k\<bar> \<le> 2 * k / 2 ^ 53"
    by simp
qed

lemma sum_double:
  assumes "0 \<le> m" and "m \<le> k" and "0 \<le> c" and "fl c = c" and "fl (k + c) = k + c"
  shows "c \<le> fl (m + c)" and "fl (m + c) \<le> k + c" and "\<bar>fl (m + c) - (m + c)\<bar> \<le> (k + c) / 2 ^ 53"
proof -
  have "fl c \<le> fl (m + c)"
    using assms(1,3) by (intro fl_mono) simp_all
  then show "c \<le> fl (m + c)"
    by (simp only: assms(4))
  have "fl (m + c) \<le> fl (k + c)"
    using assms(1,2,3) by (intro fl_mono) simp_all
  then show "fl (m + c) \<le> k + c"
    by (simp only: assms(5))
  have "\<bar>fl (m + c) - (m + c)\<bar> \<le> (m + c) / 2 ^ 53"
    using assms(1,3) by (intro fl_error) simp
  also have "\<dots> \<le> (k + c) / 2 ^ 53"
    using assms(2) by (intro divide_right_mono) simp_all
  finally show "\<bar>fl (m + c) - (m + c)\<bar> \<le> (k + c) / 2 ^ 53" .
qed

lemma scaled_double:
  assumes "0 \<le> r" and "r \<le> 1" and "0 \<le> k" and "fl k = k"
  shows "0 \<le> fl (fl r * k)" and "fl (fl r * k) \<le> k" and "\<bar>fl (fl r * k) - r * k\<bar> \<le> 2 * k / 2 ^ 53"
  using product_double [OF ratio_double [OF assms(1,2)] assms(3,4)] by blast+

lemma shifted_double:
  assumes "0 \<le> r" and "r \<le> 1" and "0 \<le> k" and "fl k = k"
    and "0 \<le> c" and "fl c = c" and "fl (k + c) = k + c"
  shows "c \<le> fl (fl (fl r * k) + c)" and "fl (fl (fl r * k) + c) \<le> k + c"
    and "\<bar>fl (fl (fl r * k) + c) - (r * k + c)\<bar> \<le> (3 * k + c) / 2 ^ 53"
proof -
  note m = scaled_double [OF assms(1-4)]
  note a = sum_double [OF m(1,2) assms(5-7)]
  show "c \<le> fl (fl (fl r * k) + c)" and "fl (fl (fl r * k) + c) \<le> k + c"
    by (rule a(1), rule a(2))
  have "\<bar>fl (fl (fl r * k) + c) - (r * k + c)\<bar>
      \<le> \<bar>fl (fl (fl r * k) + c) - (fl (fl r * k) + c)\<bar> + \<bar>fl (fl r * k) - r * k\<bar>"
    by simp
  also have "\<dots> \<le> (k + c) / 2 ^ 53 + 2 * k / 2 ^ 53"
    using a(3) m(3) by (rule add_mono)
  also have "\<dots> = (3 * k + c) / 2 ^ 53"
    by (simp add: field_simps)
  finally show "\<bar>fl (fl (fl r * k) + c) - (r * k + c)\<bar> \<le> (3 * k + c) / 2 ^ 53" .
qed

lemma scaled_mono:
  assumes "0 \<le> q" and "q \<le> r" and "0 \<le> k"
  shows "fl (fl q * k) \<le> fl (fl r * k)"
proof -
  have "fl q * k \<le> fl r * k"
    using fl_mono [OF assms(1,2)] assms(3) by (rule mult_right_mono)
  moreover have "0 \<le> fl q * k"
    using fl_nonneg [OF assms(1)] assms(3) by simp
  ultimately show ?thesis
    by (intro fl_mono)
qed

lemma shifted_mono:
  assumes "0 \<le> q" and "q \<le> r" and "0 \<le> k" and "0 \<le> c"
  shows "fl (fl (fl q * k) + c) \<le> fl (fl (fl r * k) + c)"
proof -
  have "0 \<le> fl q * k"
    using fl_nonneg [OF assms(1)] assms(3) by simp
  then have "0 \<le> fl (fl q * k)"
    by (rule fl_nonneg)
  with scaled_mono [OF assms(1-3)] assms(4) show ?thesis
    by (intro fl_mono) simp_all
qed

text \<open>The double each handler hands to \<^verbatim>\<open>toFixed\<close>.\<close>

lemma upload_number:
  "0 < S \<Longrightarrow> js_add (js_mul (js_div b S) 90) 10 = Fin (fl (fl (fl (rat_of_nat b / rat_of_nat S) * 90) + 10))"
  by (simp add: js_div_def)

lemma restore_number:
  "0 < S \<Longrightarrow> js_mul (js_div b S) 80 = Fin (fl (fl (rat_of_nat b / rat_of_nat S) * 80))"
  by (simp add: js_div_def)

lemma recovery_number:
  "0 < S \<Longrightarrow> js_add (js_mul (js_div b S) 70) 10 = Fin (fl (fl (fl (rat_of_nat b / rat_of_nat S) * 70) + 10))"
  by (simp add: js_div_def)

lemma upload_double:
  assumes "0 < S" "b \<le> S"
  shows "10 \<le> fl (fl (fl (rat_of_nat b / rat_of_nat S) * 90) + 10)"
    and "fl (fl (fl (rat_of_nat b / rat_of_nat S) * 90) + 10) \<le> 100"
    and "\<bar>fl (fl (fl (rat_of_nat b / rat_of_nat S) * 90) + 10) - (rat_of_nat b / rat_of_nat S * 90 + 10)\<bar>
           \<le> 1 / 10 ^ 13"
proof -
  note s = shifted_double [OF ratio_bounds [OF assms], of 90 10]
  show "10 \<le> fl (fl (fl (rat_of_nat b / rat_of_nat S) * 90) + 10)"
    using s(1) by simp
  show "fl (fl (fl (rat_of_nat b / rat_of_nat S) * 90) + 10) \<le> 100"
    using s(2) by simp
  have "\<bar>fl (fl (fl (rat_of_nat b / rat_of_nat S) * 90) + 10) - (rat_of_nat b / rat_of_nat S * 90 + 10)\<bar>
      \<le> (3 * 90 + 10) / 2 ^ 53"
    using s(3) by simp
  also have "\<dots> \<le> (1::rat) / 10 ^ 13"
    by simp
  finally show "\<bar>fl (fl (fl (rat_of_nat b / rat_of_nat S) * 90) + 10) - (rat_of_nat b / rat_of_nat S * 90 + 10)\<bar>
           \<le> 1 / 10 ^ 13" .
qed

lemma restore_double:
  assumes "0 < S" "b \<le> S"
  shows "0 \<le> fl (fl (rat_of_nat b / rat_of_nat S) * 80)"
    and "fl (fl (rat_of_nat b / rat_of_nat S) * 80) \<le> 80"
    and "\<bar>fl (fl (rat_of_nat b / rat_of_nat S) * 80) - rat_of_nat b / rat_of_nat S * 80\<bar> \<le> 1 / 10 ^ 13"
proof -
  note s = scaled_double [OF ratio_bounds [OF assms], of 80]
  show "0 \<le> fl (fl (rat_of_nat b / rat_of_nat S) * 80)"
    using s(1) by simp
  show "fl (fl (rat_of_nat b / rat_of_nat S) * 80) \<le> 80"
    using s(2) by simp
  have "\<bar>fl (fl (rat_of_nat b / rat_of_nat S) * 80) - rat_of_nat b / rat_of_nat S * 80\<bar> \<le> 2 * 80 / 2 ^ 53"
    using s(3) by simp
  also have "\<dots> \<le> (1::rat) / 10 ^ 13"
    by simp
  finally show "\<bar>fl (fl (rat_of_nat b / rat_of_nat S) * 80) - rat_of_nat b / rat_of_nat S * 80\<bar> \<le> 1 / 10 ^ 13" .
qed

lemma recovery_double:
  assumes "0 < S" "b \<le> S"
  shows "10 \<le> fl (fl (fl (rat_of_nat b / rat_of_nat S) * 70) + 10)"
    and "fl (fl (fl (rat_of_nat b / rat_of_nat S) * 70) + 10) \<le> 80"
    and "\<bar>fl (fl (fl (rat_of_nat b / rat_of_nat S) * 70) + 10) - (rat_of_nat b / rat_of_nat S * 70 + 10)\<bar>
           \<le> 1 / 10 ^ 13"
proof -
  note s = shifted_double [OF ratio_bounds [OF assms], of 70 10]
  show "10 \<le> fl (fl (fl (rat_of_nat b / rat_of_nat S) * 70) + 10)"
    using s(1) by simp
  show "fl (fl (fl (rat_of_nat b / rat_of_nat S) * 70) + 10) \<le> 80"
    using s(2) by simp
  have "\<bar>fl (fl (fl (rat_of_nat b / rat_of_nat S) * 70) + 10) - (rat_of_nat b / rat_of_nat S * 70 + 10)\<bar>
      \<le> (3 * 70 + 10) / 2 ^ 53"
    using s(3) by simp
  also have "\<dots> \<le> (1::rat) / 10 ^ 13"
    by simp
  finally show "\<bar>fl (fl (fl (rat_of_nat b / rat_of_nat S) * 70) + 10) - (rat_of_nat b / rat_of_nat S * 70 + 10)\<bar>
           \<le> 1 / 10 ^ 13" .
qed

text \<open>The strings: the hundredths of the double, printed.\<close>

lemma toFixed2_nonneg: "0 \<le> x \<Longrightarrow> toFixed2 (Fin x) = fixed2 (hundredths x)"
  by (simp add: not_less [symmetric] del: not_less)

lemma upload_string:
  assumes "0 < S"
  shows "upload_percentage b S = fixed2 (hundredths (fl (fl (fl (rat_of_nat b / rat_of_nat S) * 90) + 10)))"
proof -
  have "0 \<le> fl (fl (rat_of_nat b / rat_of_nat S) * 90) + 10"
    by (intro add_nonneg_nonneg fl_nonneg mult_nonneg_nonneg) simp_all
  then have "0 \<le> fl (fl (fl (rat_of_nat b / rat_of_nat S) * 90) + 10)"
    by (rule fl_nonneg)
  then show ?thesis
    unfolding upload_percentage_def upload_number [OF assms] by (rule toFixed2_nonneg)
qed

lemma restore_string:
  assumes "0 < S"
  shows "restore_percentage b S = fixed2 (hundredths (fl (fl (rat_of_nat b / rat_of_nat S) * 80)))"
proof -
  have "0 \<le> fl (fl (rat_of_nat b / rat_of_nat S) * 80)"
    by (intro fl_nonneg mult_nonneg_nonneg) simp_all
  then show ?thesis
    unfolding restore_percentage_def restore_number [OF assms] by (rule toFixed2_nonneg)
qed

lemma recovery_string:
  assumes "0 < S"
  shows "recovery_percentage b S = fixed2 (hundredths (fl (fl (fl (rat_of_nat b / rat_of_nat S) * 70) + 10)))"
proof -
  have "0 \<le> fl (fl (rat_of_nat b / rat_of_nat S) * 70) + 10"
    by (intro add_nonneg_nonneg fl_nonneg mult_nonneg_nonneg) simp_all
  then have "0 \<le> fl (fl (fl (rat_of_nat b / rat_of_nat S) * 70) + 10)"
    by (rule fl_nonneg)
  then show ?thesis
    unfolding recovery_percentage_def recovery_number [OF assms] by (rule toFixed2_nonneg)
qed

lemma pct_upload:
  assumes "0 < S"
  shows "pct_value (JStr (upload_percentage b S)) =
           Some (round2 (fl (fl (fl (rat_of_nat b / rat_of_nat S) * 90) + 10)))"
  by (simp only: upload_string [OF assms] pct_value_fixed2 round2_def)

lemma pct_restore:
  assumes "0 < S"
  shows "pct_value (JStr (restore_percentage b S)) =
           Some (round2 (fl (fl (rat_of_nat b / rat_of_nat S) * 80)))"
  by (simp only: restore_string [OF assms] pct_value_fixed2 round2_def)

lemma pct_recovery:
  assumes "0 < S"
  shows "pct_value (JStr (recovery_percentage b S)) =
           Some (round2 (fl (fl (fl (rat_of_nat b / rat_of_nat S) * 70) + 10)))"
  by (simp only: recovery_string [OF assms] pct_value_fixed2 round2_def)

lemma round2_between:
  assumes "rat_of_nat lo \<le> x" "x \<le> rat_of_nat hi"
  shows "rat_of_nat lo \<le> round2 x \<and> round2 x \<le> rat_of_nat hi"
  using round2_mono [OF assms(1)] round2_mono [OF assms(2)] by simp

lemma upload_range:
  assumes "0 < S" "b \<le> S"
  shows "10 \<le> round2 (fl (fl (fl (rat_of_nat b / rat_of_nat S) * 90) + 10)) \<and>
         round2 (fl (fl (fl (rat_of_nat b / rat_of_nat S) * 90) + 10)) \<le> 100"
  using round2_between [of 10 _ 100] upload_double(1,2) [OF assms] by simp

lemma restore_range:
  assumes "0 < S" "b \<le> S"
  shows "0 \<le> round2 (fl (fl (rat_of_nat b / rat_of_nat S) * 80)) \<and>
         round2 (fl (fl (rat_of_nat b / rat_of_nat S) * 80)) \<le> 80"
  using round2_between [of 0 _ 80] restore_double(1,2) [OF assms] by simp

lemma recovery_range:
  assumes "0 < S" "b \<le> S"
  shows "10 \<le> round2 (fl (fl (fl (rat_of_nat b / rat_of_nat S) * 70) + 10)) \<and>
         round2 (fl (fl (fl (rat_of_nat b / rat_of_nat S) * 70) + 10)) \<le> 80"
  using round2_between [of 10 _ 80] recovery_double(1,2) [OF assms] by simp

subsection \<open>Two-decimal numerals\<close>

lemma two_decimals_fixed2 [simp]: "two_decimals (fixed2 n)"
proof -
  have ip: "list_all is_digit (show_nat (n div 100))"
    by simp
  have tw: "takeWhile is_digit (fixed2 n) = show_nat (n div 100)"
    unfolding fixed2_def using takeWhile_digits [OF ip, of "CHR ''.''"] by simp
  have dw: "dropWhile is_digit (fixed2 n) = CHR ''.'' # pad_digits 2 (n mod 100)"
    unfolding fixed2_def using dropWhile_digits [OF ip, of "CHR ''.''"] by simp
  show ?thesis
    unfolding two_decimals_def tw dw by (simp del: pad_digits_numeral)
qed

lemma not_two_decimals_names [simp]: "\<not> two_decimals ''Infinity''" "\<not> two_decimals ''NaN''"
  by (simp_all add: two_decimals_def is_digit_def)

subsection \<open>Doubles of small dyadic fractions\<close>

lemma fl_halves [simp]: "numeral w < (2::int) ^ 53 \<Longrightarrow> fl (numeral w / 2) = numeral w / 2"
  by (rule fl_exact [of "numeral w" _ "- 1"]) simp_all

lemma fl_quarters [simp]: "numeral w < (2::int) ^ 53 \<Longrightarrow> fl (numeral w / 4) = numeral w / 4"
  by (rule fl_exact [of "numeral w" _ "- 2"]) simp_all

lemma fl_one_half [simp]: "fl (1 / 2) = 1 / 2"
  by (rule fl_exact [of 1 _ "- 1"]) simp_all

lemma fl_one_quarter [simp]: "fl (1 / 4) = 1 / 4"
  by (rule fl_exact [of 1 _ "- 2"]) simp_all

lemmas print_defs =
  hundredths_def fixed2_def show_nat_small show_nat_large digit_char_def

lemmas percentage_defs =
  upload_percentage_def restore_percentage_def recovery_percentage_def js_div_def

lemma healthy_percentages:
  "upload_percentage (Suc 0) 4 = ''32.50''" "upload_percentage 4 4 = ''100.00''"
  "restore_percentage (Suc 0) 4 = ''20.00''" "restore_percentage 4 4 = ''80.00''"
  "recovery_percentage (Suc 0) 4 = ''27.50''" "recovery_percentage 4 4 = ''80.00''"
  by (simp_all add: percentage_defs print_defs)

subsection \<open>A ratio that is not a double\<close>

lemma fl_eval:
  assumes "0 < x" and "2 powi e \<le> x" and "x < 2 powi (e + 1)"
    and "round_half_even (x / 2 powi (e - 52)) = n" and "of_int n * 2 powi (e - 52) = y"
  shows "fl x = y"
  using fl_in_binade [OF assms(1-3)] assms(4,5) by simp

lemma upload_41_of_80:
  "js_add (js_mul (js_div 41 80) 90) 10 = Fin (7898891533942783 / 140737488355328)"
  "upload_percentage 41 80 = ''56.12''"
proof -
  have r: "fl (41 / 80) = 2308094809027379 / 4503599627370496"
    by (rule fl_eval [of _ "- 1" 4616189618054758]) (simp_all add: round_half_even_def)
  have m: "fl (103864266406232055 / 2251799813685248) = 6491516650389503 / 140737488355328"
    by (rule fl_eval [of _ 5 6491516650389503]) (simp_all add: round_half_even_def)
  have a: "fl (7898891533942783 / 140737488355328) = 7898891533942783 / 140737488355328"
    by (rule fl_eval [of _ 5 7898891533942783]) (simp_all add: round_half_even_def)
  show d: "js_add (js_mul (js_div 41 80) 90) 10 = Fin (7898891533942783 / 140737488355328)"
    by (simp add: js_div_def r m a)
  show "upload_percentage 41 80 = ''56.12''"
    unfolding upload_percentage_def d by (simp add: print_defs)
qed

lemma restore_3_of_16000: "restore_percentage 3 16000 = ''0.01''"
proof -
  have r: "fl (3 / 16000) = 3458764513820541 / 18446744073709551616"
    by (rule fl_eval [of _ "- 13" 6917529027641082]) (simp_all add: round_half_even_def)
  have m: "fl (17293822569102705 / 1152921504606846976) = 1080863910568919 / 72057594037927936"
    by (rule fl_eval [of _ "- 7" 8646911284551352]) (simp_all add: round_half_even_def)
  show ?thesis
    by (simp add: restore_percentage_def js_div_def r m print_defs)
qed

lemma recovery_7_of_400: "recovery_percentage 7 400 = ''11.22''"
proof -
  have r: "fl (7 / 400) = 1261007895663739 / 72057594037927936"
    by (rule fl_eval [of _ "- 6" 5044031582654956]) (simp_all add: round_half_even_def)
  have m: "fl (44135276348230865 / 36028797018963968) = 2758454771764429 / 2251799813685248"
    by (rule fl_eval [of _ 0 5516909543528858]) (simp_all add: round_half_even_def)
  have a: "fl (25276452908616909 / 2251799813685248) = 6319113227154227 / 562949953421312"
    by (rule fl_eval [of _ 3 6319113227154227]) (simp_all add: round_half_even_def)
  show ?thesis
    by (simp add: recovery_percentage_def js_div_def r m a print_defs)
qed

subsection \<open>The percentage of a transfer\<close>

lemma upload_percentage_rounded:
  assumes "0 < S" and "b \<le> S"
  shows "\<exists>u. js_add (js_mul (js_div b S) 90) 10 = Fin u \<and>
           \<bar>u - (rat_of_nat b / rat_of_nat S * 90 + 10)\<bar> \<le> 1 / 10 ^ 13 \<and> 10 \<le> u \<and> u \<le> 100 \<and>
           upload_percentage b S = fixed2 (hundredths u) \<and>
           pct_value (JStr (upload_percentage b S)) = Some (round2 u) \<and>
           \<bar>round2 u - u\<bar> \<le> 1 / 200 \<and> 10 \<le> round2 u \<and> round2 u \<le> 100"
proof -
  let ?u = "fl (fl (fl (rat_of_nat b / rat_of_nat S) * 90) + 10)"
  note d = upload_double [OF assms]
  have "\<bar>round2 ?u - ?u\<bar> \<le> 1 / 200"
    using d(1) by (intro round2_near) simp
  then show ?thesis
    using upload_number [OF assms(1), of b] d upload_string [OF assms(1), of b]
      pct_upload [OF assms(1), of b] upload_range [OF assms]
    by blast
qed

lemma restore_percentage_rounded:
  assumes "0 < S" and "b \<le> S"
  shows "\<exists>u. js_mul (js_div b S) 80 = Fin u \<and>
           \<bar>u - rat_of_nat b / rat_of_nat S * 80\<bar> \<le> 1 / 10 ^ 13 \<and> 0 \<le> u \<and> u \<le> 80 \<and>
           restore_percentage b S = fixed2 (hundredths u) \<and>
           pct_value (JStr (restore_percentage b S)) = Some (round2 u) \<and>
           \<bar>round2 u - u\<bar> \<le> 1 / 200 \<and> 0 \<le> round2 u \<and> round2 u \<le> 80"
proof -
  let ?u = "fl (fl (rat_of_nat b / rat_of_nat S) * 80)"
  note d = restore_double [OF assms]
  have "\<bar>round2 ?u - ?u\<bar> \<le> 1 / 200"
    using d(1) by (intro round2_near)
  then show ?thesis
    using restore_number [OF assms(1), of b] d restore_string [OF assms(1), of b]
      pct_restore [OF assms(1), of b] restore_range [OF assms]
    by blast
qed

lemma recovery_percentage_rounded:
  assumes "0 < S" and "b \<le> S"
  shows "\<exists>u. js_add (js_mul (js_div b S) 70) 10 = Fin u \<and>
           \<bar>u - (rat_of_nat b / rat_of_nat S * 70 + 10)\<bar> \<le> 1 / 10 ^ 13 \<and> 10 \<le> u \<and> u \<le> 80 \<and>
           recovery_percentage b S = fixed2 (hundredths u) \<and>
           pct_value (JStr (recovery_percentage b S)) = Some (round2 u) \<and>
           \<bar>round2 u - u\<bar> \<le> 1 / 200 \<and> 10 \<le> round2 u \<and> round2 u \<le> 80"
proof -
  let ?u = "fl (fl (fl (rat_of_nat b / rat_of_nat S) * 70) + 10)"
  note d = recovery_double [OF assms]
  have "\<bar>round2 ?u - ?u\<bar> \<le> 1 / 200"
    using d(1) by (intro round2_near) simp
  then show ?thesis
    using recovery_number [OF assms(1), of b] d recovery_string [OF assms(1), of b]
      pct_recovery [OF assms(1), of b] recovery_range [OF assms]
    by blast
qed

text \<open>
  C3 (amended). For a transfer of total size \<open>S > 0\<close> and cumulative bytes \<open>b \<le> S\<close>, each
  of the three handlers computes the rescaled ratio in double arithmetic and emits what
  \<^verbatim>\<open>toFixed(2)\<close> prints for it. The double \<open>u\<close> lies within \<open>10^-13\<close> of \<open>(b/S)*90+10\<close>
  (backup upload), \<open>(b/S)*80\<close> (restore download), \<open>(b/S)*70+10\<close> (disaster-recovery
  download) and inside the range of the phase, \<open>[10,100]\<close>, \<open>[0,80]\<close>, \<open>[10,80]\<close>. The
  emitted string is the two-decimal numeral of the hundredths nearest to \<open>u\<close>: the number
  it denotes is within \<open>1/200\<close> of \<open>u\<close> and inside the same range.
\<close>

theorem transfer_percentage_rounded:
  assumes "0 < S" and "b \<le> S"
  shows "(\<exists>u. js_add (js_mul (js_div b S) 90) 10 = Fin u \<and>
           \<bar>u - (rat_of_nat b / rat_of_nat S * 90 + 10)\<bar> \<le> 1 / 10 ^ 13 \<and> 10 \<le> u \<and> u \<le> 100 \<and>
           upload_percentage b S = fixed2 (hundredths u) \<and>
           pct_value (JStr (upload_percentage b S)) = Some (round2 u) \<and>
           \<bar>round2 u - u\<bar> \<le> 1 / 200 \<and> 10 \<le> round2 u \<and> round2 u \<le> 100) \<and>
         (\<exists>u. js_mul (js_div b S) 80 = Fin u \<and>
           \<bar>u - rat_of_nat b / rat_of_nat S * 80\<bar> \<le> 1 / 10 ^ 13 \<and> 0 \<le> u \<and> u \<le> 80 \<and>
           restore_percentage b S = fixed2 (hundredths u) \<and>
           pct_value (JStr (restore_percentage b S)) = Some (round2 u) \<and>
           \<bar>round2 u - u\<bar> \<le> 1 / 200 \<and> 0 \<le> round2 u \<and> round2 u \<le> 80) \<and>
         (\<exists>u. js_add (js_mul (js_div b S) 70) 10 = Fin u \<and>
           \<bar>u - (rat_of_nat b / rat_of_nat S * 70 + 10)\<bar> \<le> 1 / 10 ^ 13 \<and> 10 \<le> u \<and> u \<le> 80 \<and>
           recovery_percentage b S = fixed2 (hundredths u) \<and>
           pct_value (JStr (recovery_percentage b S)) = Some (round2 u) \<and>
           \<bar>round2 u - u\<bar> \<le> 1 / 200 \<and> 10 \<le> round2 u \<and> round2 u \<le> 80) \<and>
         two_decimals (upload_percentage b S) \<and> two_decimals (restore_percentage b S) \<and>
         two_decimals (recovery_percentage b S)"
proof -
  have "two_decimals (upload_percentage b S)" "two_decimals (restore_percentage b S)"
    "two_decimals (recovery_percentage b S)"
    by (simp_all only: upload_string [OF assms(1)] restore_string [OF assms(1)]
        recovery_string [OF assms(1)] two_decimals_fixed2)
  then show ?thesis
    using upload_percentage_rounded [OF assms] restore_percentage_rounded [OF assms]
      recovery_percentage_rounded [OF assms]
    by blast
qed

theorem transfer_percentage_rounded_witness:
  "(0::nat) < 80 \<and> (41::nat) \<le> 80 \<and>
   upload_percentage 41 80 = ''56.12'' \<and>
   (\<exists>u. js_add (js_mul (js_div 41 80) 90) 10 = Fin u \<and>
      \<bar>u - (rat_of_nat 41 / rat_of_nat 80 * 90 + 10)\<bar> \<le> 1 / 10 ^ 13 \<and>
      upload_percentage 41 80 = fixed2 (hundredths u) \<and>
      pct_value (JStr (upload_percentage 41 80)) = Some (round2 u) \<and>
      \<bar>round2 u - u\<bar> \<le> 1 / 200 \<and> 10 \<le> round2 u \<and> round2 u \<le> 100) \<and>
   two_decimals (restore_percentage 41 80) \<and> two_decimals (recovery_percentage 41 80)"
proof -
  have h: "(0::nat) < 80" "(41::nat) \<le> 80"
    by simp_all
  show ?thesis
    using transfer_percentage_rounded [OF h] upload_41_of_80(2) h by blast
qed

text \<open>
  C3 as stated fails: the emitted percentage is not the rescaled ratio. After 41 of 80
  bytes the ratio rescaled for an upload is \<open>56.125\<close>; the double the handler computes
  is a little smaller, and the handler emits the string \<^verbatim>\<open>56.12\<close>. A restore emits
  \<^verbatim>\<open>0.01\<close> for \<open>0.015\<close> and a disaster recovery \<^verbatim>\<open>11.22\<close> for \<open>11.225\<close>.
\<close>

theorem transfer_percentage_counterexample:
  "rat_of_nat 41 / rat_of_nat 80 * 90 + 10 = 56125 / 1000 \<and>
   js_add (js_mul (js_div 41 80) 90) 10 = Fin (7898891533942783 / 140737488355328) \<and>
   (7898891533942783 / 140737488355328 :: rat) < 56125 / 1000 \<and>
   upload_percentage 41 80 = ''56.12'' \<and>
   pct_value (JStr (upload_percentage 41 80)) = Some (5612 / 100) \<and>
   pct_value (JStr (upload_percentage 41 80)) \<noteq> Some (rat_of_nat 41 / rat_of_nat 80 * 90 + 10) \<and>
   rat_of_nat 3 / rat_of_nat 16000 * 80 = 15 / 1000 \<and>
   restore_percentage 3 16000 = ''0.01'' \<and>
   rat_of_nat 7 / rat_of_nat 400 * 70 + 10 = 11225 / 1000 \<and>
   recovery_percentage 7 400 = ''11.22''"
proof -
  have v: "pct_value (JStr ''56.12'') = Some (5612 / 100)"
    by (simp add: pct_value.simps read_decimal_def is_digit_def digit_val_def read_nat_def)
  show ?thesis
    unfolding upload_41_of_80 restore_3_of_16000 recovery_7_of_400 v by simp
qed

subsection \<open>The log view\<close>

lemma split_lines_not_Nil [simp]: "split_lines content \<noteq> []"
  by (induction content) (auto split: list.splits)

lemma split_lines_line:
  "CHR 0x0A \<notin> set l \<Longrightarrow> split_lines (l @ CHR 0x0A # rest) = l # split_lines rest"
proof (induction l)
  case Nil
  show ?case by simp
next
  case (Cons c l)
  then show ?case by auto
qed

lemma split_lines_file_text:
  "list_all (\<lambda>l. CHR 0x0A \<notin> set l) ls \<Longrightarrow> split_lines (file_text ls) = ls @ ['''']"
proof (induction ls)
  case Nil
  show ?case by (simp add: file_text_def)
next
  case (Cons l ls)
  then have "split_lines (file_text ls) = ls @ ['''']" and "CHR 0x0A \<notin> set l"
    by simp_all
  then show ?case
    using split_lines_line [of l "file_text ls"] by (simp add: file_text_def)
qed

text \<open>
  C8. When the log file consists of the appended lines \<open>ls\<close> (each free of line breaks),
  the dashboard shows the non-empty lines, latest first, cut to the latest 50: the last
  50 non-empty lines in reverse order of appending, and all of them reversed when
  there are at most 50.
\<close>

theorem dashboard_logs_recent:
  assumes "list_all (\<lambda>l. CHR 0x0A \<notin> set l) ls"
  shows "dashboard_logs (file_text ls) =
           rev (drop (length (filter (\<lambda>l. l \<noteq> []) ls) - 50) (filter (\<lambda>l. l \<noteq> []) ls)) \<and>
         length (dashboard_logs (file_text ls)) = min 50 (length (filter (\<lambda>l. l \<noteq> []) ls)) \<and>
         (length (filter (\<lambda>l. l \<noteq> []) ls) \<le> 50 \<longrightarrow>
            dashboard_logs (file_text ls) = rev (filter (\<lambda>l. l \<noteq> []) ls))"
proof -
  have view: "dashboard_logs (file_text ls) = take 50 (rev (filter (\<lambda>l. l \<noteq> []) ls))"
    by (simp add: dashboard_logs_def split_lines_file_text [OF assms])
  show ?thesis
    unfolding view by (simp add: take_rev)
qed

theorem dashboard_logs_recent_witness:
  "list_all (\<lambda>l. CHR 0x0A \<notin> set l) [''first'', '''', ''second''] \<and>
   dashboard_logs (file_text [''first'', '''', ''second'']) = [''second'', ''first'']"
  using dashboard_logs_recent [of "[''first'', '''', ''second'']"] by simp

subsection \<open>Artifact names\<close>

lemma replace_colons_digits: "list_all is_digit s \<Longrightarrow> replace_colons s = s"
  by (induction s) (auto simp: replace_colons_def)

lemma replace_colons_append [simp]: "replace_colons (s @ t) = replace_colons s @ replace_colons t"
  by (simp add: replace_colons_def)

lemma replace_colons_pad [simp]: "replace_colons (pad_digits k n) = pad_digits k n"
  by (simp add: replace_colons_digits)

lemma replace_colons_year [simp]: "replace_colons (year_string y) = year_string y"
  by (simp add: year_string_def del: pad_digits_numeral) (simp add: replace_colons_def)

lemma length_year_string: "length (year_string y) = (if 0 \<le> y \<and> y \<le> 9999 then 4 else 7)"
  by (simp add: year_string_def del: pad_digits_numeral)

lemma year_string_inject:
  assumes "year_string y = year_string z"
    and "- 271821 \<le> y" "y \<le> 275760" "- 271821 \<le> z" "z \<le> 275760"
  shows "y = z"
proof -
  have len: "length (year_string y) = length (year_string z)"
    using assms(1) by simp
  show ?thesis
  proof (cases "0 \<le> y \<and> y \<le> 9999")
    case True
    then have zr: "0 \<le> z \<and> z \<le> 9999"
      using len by (simp add: length_year_string split: if_splits)
    from assms(1) True zr have "pad_digits 4 (nat y) = pad_digits 4 (nat z)"
      by (simp add: year_string_def del: pad_digits_numeral)
    moreover have "nat y < 10 ^ 4" and "nat z < 10 ^ 4"
      using True zr by (auto simp: nat_less_iff)
    ultimately have "nat y = nat z"
      by (rule pad_digits_inject)
    then have "int (nat y) = int (nat z)"
      by simp
    with True zr show ?thesis by simp
  next
    case False
    then have zr: "\<not> (0 \<le> z \<and> z \<le> 9999)"
      using len by (simp add: length_year_string split: if_splits)
    show ?thesis
    proof (cases "y < 0")
      case True
      with assms(1) False zr have z: "z < 0"
        by (auto simp: year_string_def simp del: pad_digits_numeral split: if_splits)
      with assms(1) True have "pad_digits 6 (nat (- y)) = pad_digits 6 (nat (- z))"
        by (simp add: year_string_def del: pad_digits_numeral)
      moreover have "nat (- y) < 10 ^ 6" and "nat (- z) < 10 ^ 6"
        using True z assms(2,4) by (auto simp: nat_less_iff)
      ultimately have "nat (- y) = nat (- z)"
        by (rule pad_digits_inject)
      then have "int (nat (- y)) = int (nat (- z))"
        by simp
      with True z show ?thesis by simp
    next
      case ypos: False
      with assms(1) False zr have z: "\<not> z < 0"
        by (auto simp: year_string_def simp del: pad_digits_numeral split: if_splits)
      with assms(1) ypos False zr have "pad_digits 6 (nat y) = pad_digits 6 (nat z)"
        by (simp add: year_string_def del: pad_digits_numeral)
      moreover have "nat y < 10 ^ 6" and "nat z < 10 ^ 6"
        using ypos z assms(3,5) by (auto simp: nat_less_iff)
      ultimately have "nat y = nat z"
        by (rule pad_digits_inject)
      then have "int (nat y) = int (nat z)"
        by simp
      with ypos z show ?thesis by simp
    qed
  qed
qed

lemma stamp_of_filename:
  "backup_filename d =
     ''backup-'' @ year_string (utc_year d) @ ''-'' @ pad_digits 2 (utc_month d) @ ''-'' @
     pad_digits 2 (utc_day d) @ ''T'' @ pad_digits 2 (utc_hours d) @ ''-'' @
     pad_digits 2 (utc_minutes d) @ ''-'' @ pad_digits 2 (utc_seconds d) @ ''.'' @
     pad_digits 3 (utc_millis d) @ ''Z'' @ ''.sql''"
  by (simp add: backup_filename_def toISOString_def del: pad_digits_numeral)
     (simp add: replace_colons_def)

lemma backup_filename_fields:
  assumes "backup_filename d = backup_filename e"
  shows "year_string (utc_year d) = year_string (utc_year e) \<and>
         pad_digits 2 (utc_month d) = pad_digits 2 (utc_month e) \<and>
         pad_digits 2 (utc_day d) = pad_digits 2 (utc_day e) \<and>
         pad_digits 2 (utc_hours d) = pad_digits 2 (utc_hours e) \<and>
         pad_digits 2 (utc_minutes d) = pad_digits 2 (utc_minutes e) \<and>
         pad_digits 2 (utc_seconds d) = pad_digits 2 (utc_seconds e) \<and>
         pad_digits 3 (utc_millis d) = pad_digits 3 (utc_millis e)"
proof -
  let ?tail = "\<lambda>d. ''-'' @ pad_digits 2 (utc_month d) @ ''-'' @
     pad_digits 2 (utc_day d) @ ''T'' @ pad_digits 2 (utc_hours d) @ ''-'' @
     pad_digits 2 (utc_minutes d) @ ''-'' @ pad_digits 2 (utc_seconds d) @ ''.'' @
     pad_digits 3 (utc_millis d) @ ''Z'' @ ''.sql''"
  have eq: "year_string (utc_year d) @ ?tail d = year_string (utc_year e) @ ?tail e"
    using assms unfolding stamp_of_filename by simp
  have "length (?tail d) = length (?tail e)"
    by (simp del: pad_digits_numeral)
  with eq have "year_string (utc_year d) = year_string (utc_year e) \<and> ?tail d = ?tail e"
    by (intro iffD1 [OF append_eq_append_conv]) (simp_all del: pad_digits_numeral)
  then show ?thesis
    by (simp del: pad_digits_numeral)
qed

text \<open>
  C4 (amended). The artifact name is derived from the start instant at millisecond
  resolution: two backup runs get the same name exactly when their start instants agree in
  every UTC field down to the millisecond. Runs started in different seconds get
  distinct names; runs started in the same second collide only in the same millisecond.
\<close>

theorem backup_filename_millisecond:
  assumes "valid_date d" and "valid_date e"
  shows "(backup_filename d = backup_filename e \<longleftrightarrow> d = e) \<and>
         (\<not> same_second d e \<longrightarrow> backup_filename d \<noteq> backup_filename e)"
proof -
  have inj: "d = e" if eq: "backup_filename d = backup_filename e"
  proof -
    note f = backup_filename_fields [OF eq]
    have y: "utc_year d = utc_year e"
      using f assms by (intro year_string_inject) (simp_all add: valid_date_def)
    have mo: "utc_month d = utc_month e"
      using f assms by (intro pad_digits_inject [of 2]) (simp_all add: valid_date_def del: pad_digits_numeral)
    have da: "utc_day d = utc_day e"
      using f assms by (intro pad_digits_inject [of 2]) (simp_all add: valid_date_def del: pad_digits_numeral)
    have ho: "utc_hours d = utc_hours e"
      using f assms by (intro pad_digits_inject [of 2]) (simp_all add: valid_date_def del: pad_digits_numeral)
    have mi: "utc_minutes d = utc_minutes e"
      using f assms by (intro pad_digits_inject [of 2]) (simp_all add: valid_date_def del: pad_digits_numeral)
    have se: "utc_seconds d = utc_seconds e"
      using f assms by (intro pad_digits_inject [of 2]) (simp_all add: valid_date_def del: pad_digits_numeral)
    have ms: "utc_millis d = utc_millis e"
      using f assms by (intro pad_digits_inject [of 3]) (simp_all add: valid_date_def del: pad_digits_numeral)
    show ?thesis
      using y mo da ho mi se ms by simp
  qed
  have "same_second d d"
    by (simp add: same_second_def)
  with inj show ?thesis
    by auto
qed

theorem backup_filename_millisecond_witness:
  "valid_date new_year \<and> valid_date (new_year\<lparr>utc_seconds := 1\<rparr>) \<and>
   \<not> same_second new_year (new_year\<lparr>utc_seconds := 1\<rparr>) \<and>
   backup_filename new_year \<noteq> backup_filename (new_year\<lparr>utc_seconds := 1\<rparr>)"
  using backup_filename_millisecond [of new_year "new_year\<lparr>utc_seconds := 1\<rparr>"]
  by (simp add: valid_date_def new_year_def same_second_def)

text \<open>
  C4 as stated fails: two runs started one millisecond apart within the same second get
  different names.
\<close>

theorem backup_filename_counterexample:
  "same_second new_year (new_year\<lparr>utc_millis := 1\<rparr>) \<and>
   backup_filename new_year = ''backup-2024-01-01T12-00-00.000Z.sql'' \<and>
   backup_filename (new_year\<lparr>utc_millis := 1\<rparr>) = ''backup-2024-01-01T12-00-00.001Z.sql''"
  by (simp add: same_second_def new_year_def backup_filename_def toISOString_def year_string_def
      replace_colons_def digit_char_def)

subsection \<open>Chunks and their percentages\<close>

lemma on_data_eq:
  "on_data socket msg pct fileSize bytes cs s =
     s\<lparr>emitted := emitted s @
          (if socket then map (\<lambda>c. \<lparr>message = msg, percentage = JStr (pct c fileSize)\<rparr>) (running bytes cs)
           else [])\<rparr>"
  by (induction cs arbitrary: bytes s) (simp_all add: emit_if_def emit_def)

lemma running_upper: "b + sum_list cs \<le> S \<Longrightarrow> c \<in> set (running b cs) \<Longrightarrow> c \<le> S"
proof (induction cs arbitrary: b)
  case Nil
  then show ?case by simp
next
  case (Cons a cs)
  from Cons.prems(2) have "c = b + a \<or> c \<in> set (running (b + a) cs)"
    by simp
  then show ?case
  proof
    assume "c = b + a"
    with Cons.prems(1) show ?thesis by simp
  next
    assume "c \<in> set (running (b + a) cs)"
    moreover from Cons.prems(1) have "b + a + sum_list cs \<le> S"
      by simp
    ultimately show ?thesis
      by (rule Cons.IH [rotated])
  qed
qed

lemma running_Nil_iff [simp]: "running b cs = [] \<longleftrightarrow> cs = []"
  by (cases cs) simp_all

subsection \<open>What each primitive changes\<close>

lemma log_fields [simp]:
  "wall_clock (log msg notify s) = wall_clock s"
  "ticks (log msg notify s) = Suc (ticks s)"
  "audit (log msg notify s) =
     audit s @ [\<lparr>stamp = wall_clock s (ticks s), entry_text = msg, escalate = notify\<rparr>]"
  "mails (log msg notify s) =
     (if notify
      then mails s @ [log_line \<lparr>stamp = wall_clock s (ticks s), entry_text = msg, escalate = notify\<rparr>]
      else mails s)"
  "emitted (log msg notify s) = emitted s"
  "temp_dir (log msg notify s) = temp_dir s"
  "bucket (log msg notify s) = bucket s"
  "created_dbs (log msg notify s) = created_dbs s"
  "restored (log msg notify s) = restored s"
  by (simp_all add: log_def Let_def)

lemma emit_fields [simp]:
  "wall_clock (emit msg pct s) = wall_clock s"
  "ticks (emit msg pct s) = ticks s"
  "audit (emit msg pct s) = audit s"
  "mails (emit msg pct s) = mails s"
  "emitted (emit msg pct s) = emitted s @ [\<lparr>message = msg, percentage = pct\<rparr>]"
  "temp_dir (emit msg pct s) = temp_dir s"
  "bucket (emit msg pct s) = bucket s"
  "created_dbs (emit msg pct s) = created_dbs s"
  "restored (emit msg pct s) = restored s"
  by (simp_all add: emit_def)

lemma emit_if_fields [simp]:
  "wall_clock (emit_if socket msg pct s) = wall_clock s"
  "ticks (emit_if socket msg pct s) = ticks s"
  "audit (emit_if socket msg pct s) = audit s"
  "mails (emit_if socket msg pct s) = mails s"
  "emitted (emit_if socket msg pct s) =
     emitted s @ (if socket then [\<lparr>message = msg, percentage = pct\<rparr>] else [])"
  "temp_dir (emit_if socket msg pct s) = temp_dir s"
  "bucket (emit_if socket msg pct s) = bucket s"
  "created_dbs (emit_if socket msg pct s) = created_dbs s"
  "restored (emit_if socket msg pct s) = restored s"
  by (simp_all add: emit_if_def)

lemma on_data_fields [simp]:
  "wall_clock (on_data socket msg pct fileSize bytes cs s) = wall_clock s"
  "ticks (on_data socket msg pct fileSize bytes cs s) = ticks s"
  "audit (on_data socket msg pct fileSize bytes cs s) = audit s"
  "mails (on_data socket msg pct fileSize bytes cs s) = mails s"
  "emitted (on_data socket msg pct fileSize bytes cs s) =
     emitted s @
       (if socket
        then map (\<lambda>c. \<lparr>message = msg, percentage = JStr (pct c fileSize)\<rparr>) (running bytes cs)
        else [])"
  "temp_dir (on_data socket msg pct fileSize bytes cs s) = temp_dir s"
  "bucket (on_data socket msg pct fileSize bytes cs s) = bucket s"
  "created_dbs (on_data socket msg pct fileSize bytes cs s) = created_dbs s"
  "restored (on_data socket msg pct fileSize bytes cs s) = restored s"
  by (simp_all add: on_data_eq)

lemma late_data_fields [simp]:
  "wall_clock (late_data socket msg pct fileSize env s) = wall_clock s"
  "ticks (late_data socket msg pct fileSize env s) = ticks s"
  "audit (late_data socket msg pct fileSize env s) = audit s"
  "mails (late_data socket msg pct fileSize env s) = mails s"
  "emitted (late_data socket msg pct fileSize env s) =
     emitted s @
       (if socket
        then map (\<lambda>c. \<lparr>message = msg, percentage = JStr (pct c fileSize)\<rparr>)
          (running (sum_list (chunks env)) (late_chunks env))
        else [])"
  "temp_dir (late_data socket msg pct fileSize env s) = temp_dir s"
  "bucket (late_data socket msg pct fileSize env s) = bucket s"
  "created_dbs (late_data socket msg pct fileSize env s) = created_dbs s"
  "restored (late_data socket msg pct fileSize env s) = restored s"
  by (simp_all add: late_data_def)

lemmas backup_defs = performBackup_def backup_upload_def backup_finish_def backup_catch_def Let_def

lemmas restore_defs = restore_route_def restore_apply_def restore_catch_def Let_def

lemmas recovery_defs =
  recovery_route_def recovery_download_def recovery_apply_def recovery_catch_def Let_def

lemma map_percentage_chunks [simp]:
  "map percentage (map (\<lambda>c. \<lparr>message = msg, percentage = g c\<rparr>) xs) = map g xs"
  by (simp add: comp_def)

lemma percentage_comp_chunk [simp]:
  "percentage \<circ> (\<lambda>c. \<lparr>message = msg, percentage = g c\<rparr>) = g"
  by (simp add: fun_eq_iff)

lemma no_terminal_chunks [simp]:
  "\<not> list_ex terminal (map (\<lambda>c. \<lparr>message = msg, percentage = JStr (g c)\<rparr>) xs)"
  by (simp add: list_ex_iff terminal_def)

lemma terminal_simps [simp]:
  "terminal \<lparr>message = msg, percentage = JNum r\<rparr> \<longleftrightarrow> r = 100 \<or> r = - 1"
  "\<not> terminal \<lparr>message = msg, percentage = JStr str\<rparr>"
  by (simp_all add: terminal_def)

subsection \<open>The form of the events\<close>

lemma upload_percentage_form:
  "two_decimals (upload_percentage c S) \<or> upload_percentage c S = ''Infinity'' \<or>
   upload_percentage c S = ''NaN''"
proof (cases "S = 0")
  case True
  then show ?thesis
    by (simp add: upload_percentage_def js_div_def)
next
  case False
  then show ?thesis
    by (simp add: upload_string)
qed

lemma restore_percentage_form:
  "two_decimals (restore_percentage c S) \<or> restore_percentage c S = ''Infinity'' \<or>
   restore_percentage c S = ''NaN''"
proof (cases "S = 0")
  case True
  then show ?thesis
    by (simp add: restore_percentage_def js_div_def)
next
  case False
  then show ?thesis
    by (simp add: restore_string)
qed

lemma recovery_percentage_form:
  "two_decimals (recovery_percentage c S) \<or> recovery_percentage c S = ''Infinity'' \<or>
   recovery_percentage c S = ''NaN''"
proof (cases "S = 0")
  case True
  then show ?thesis
    by (simp add: recovery_percentage_def js_div_def)
next
  case False
  then show ?thesis
    by (simp add: recovery_string)
qed

lemma event_form_number [simp]:
  "event_form \<lparr>message = msg, percentage = JNum r\<rparr> \<longleftrightarrow>
     r = - 1 \<or> r = 0 \<or> r = 10 \<or> r = 80 \<or> r = 100"
  by (simp add: event_form_def)

lemma event_ok_number [simp]:
  "event_ok \<lparr>message = msg, percentage = JNum r\<rparr> \<longleftrightarrow>
     r = - 1 \<or> r = 0 \<or> r = 10 \<or> r = 80 \<or> r = 100"
  by (simp add: event_ok_def)

lemma chunk_events_form [simp]:
  "list_all event_form (map (\<lambda>c. \<lparr>message = msg, percentage = JStr (upload_percentage c S)\<rparr>) cs)"
  "list_all event_form (map (\<lambda>c. \<lparr>message = msg, percentage = JStr (restore_percentage c S)\<rparr>) cs)"
  "list_all event_form (map (\<lambda>c. \<lparr>message = msg, percentage = JStr (recovery_percentage c S)\<rparr>) cs)"
  using upload_percentage_form restore_percentage_form recovery_percentage_form
  by (simp_all add: list_all_iff event_form_def)

lemma upload_event_ok:
  assumes "0 < S" and "c \<le> S"
  shows "event_ok \<lparr>message = msg, percentage = JStr (upload_percentage c S)\<rparr>"
proof -
  have "two_decimals (upload_percentage c S)"
    by (simp add: upload_string [OF assms(1)])
  with upload_range [OF assms] show ?thesis
    by (simp add: event_ok_def pct_upload [OF assms(1)])
qed

lemma restore_event_ok:
  assumes "0 < S" and "c \<le> S"
  shows "event_ok \<lparr>message = msg, percentage = JStr (restore_percentage c S)\<rparr>"
proof -
  have "two_decimals (restore_percentage c S)"
    by (simp add: restore_string [OF assms(1)])
  with restore_range [OF assms] show ?thesis
    by (simp add: event_ok_def pct_restore [OF assms(1)])
qed

lemma recovery_event_ok:
  assumes "0 < S" and "c \<le> S"
  shows "event_ok \<lparr>message = msg, percentage = JStr (recovery_percentage c S)\<rparr>"
proof -
  have "two_decimals (recovery_percentage c S)"
    by (simp add: recovery_string [OF assms(1)])
  with recovery_range [OF assms] show ?thesis
    by (simp add: event_ok_def pct_recovery [OF assms(1)])
qed

text \<open>
  The events of the chunks of a transfer that fits, those before and those after the
  rejection, for any handler whose event is in order at every byte count up to the size.
\<close>

lemma chunk_events_ok:
  assumes fit: "chunks_fit S (cs @ ls)"
    and ok: "\<And>c. 0 < S \<Longrightarrow> c \<le> S \<Longrightarrow> event_ok \<lparr>message = msg, percentage = JStr (pct c S)\<rparr>"
  shows "list_all event_ok (map (\<lambda>c. \<lparr>message = msg, percentage = JStr (pct c S)\<rparr>) (running 0 cs))"
    and "list_all event_ok
           (map (\<lambda>c. \<lparr>message = msg, percentage = JStr (pct c S)\<rparr>) (running (sum_list cs) ls))"
proof -
  from fit have sum: "sum_list cs + sum_list ls \<le> S" and pos: "cs \<noteq> [] \<or> ls \<noteq> [] \<Longrightarrow> 0 < S"
    by (auto simp: chunks_fit_def)
  have "event_ok \<lparr>message = msg, percentage = JStr (pct c S)\<rparr>" if "c \<in> set (running 0 cs)" for c
  proof -
    from that have "cs \<noteq> []"
      by auto
    moreover have "c \<le> S"
      using running_upper [of 0 cs S c] sum that by simp
    ultimately show ?thesis
      using pos ok by blast
  qed
  then show "list_all event_ok (map (\<lambda>c. \<lparr>message = msg, percentage = JStr (pct c S)\<rparr>) (running 0 cs))"
    by (simp add: list_all_iff)
  have "event_ok \<lparr>message = msg, percentage = JStr (pct c S)\<rparr>"
    if "c \<in> set (running (sum_list cs) ls)" for c
  proof -
    from that have "ls \<noteq> []"
      by auto
    moreover have "c \<le> S"
      using running_upper [of "sum_list cs" ls S c] sum that by simp
    ultimately show ?thesis
      using pos ok by blast
  qed
  then show "list_all event_ok
      (map (\<lambda>c. \<lparr>message = msg, percentage = JStr (pct c S)\<rparr>) (running (sum_list cs) ls))"
    by (simp add: list_all_iff)
qed

lemma backup_events_form: "list_all event_form (new_events s (snd (performBackup socket env s)))"
  by (simp add: backup_defs new_events_def split: outcome.splits)

lemma restore_events_form: "list_all event_form (new_events s (snd (restore_route env f s)))"
  by (simp add: restore_defs new_events_def split: outcome.splits emitter.splits)

lemma recovery_events_form: "list_all event_form (new_events s (snd (recovery_route env f s)))"
  by (simp add: recovery_defs new_events_def split: outcome.splits emitter.splits)

lemma backup_events_ok:
  assumes "transfer_fits (stat_size env) (chunks env @ late_chunks env)"
  shows "list_all event_ok (new_events s (snd (performBackup socket env s)))"
proof (cases "stat_size env")
  case (Resolved S)
  with assms have "chunks_fit S (chunks env @ late_chunks env)"
    by (simp add: transfer_fits_def)
  note ok = chunk_events_ok [OF this, of "''Uploading...''" upload_percentage, OF upload_event_ok]
  show ?thesis
    using Resolved ok by (simp add: backup_defs new_events_def split: outcome.splits)
next
  case (Rejected msg)
  then show ?thesis
    by (simp add: backup_defs new_events_def split: outcome.splits)
qed

lemma restore_events_ok:
  assumes "transfer_fits (head_object env) (chunks env @ late_chunks env)"
  shows "list_all event_ok (new_events s (snd (restore_route env f s)))"
proof (cases "head_object env")
  case (Resolved S)
  with assms have "chunks_fit S (chunks env @ late_chunks env)"
    by (simp add: transfer_fits_def)
  note ok = chunk_events_ok [OF this, of "''Downloading...''" restore_percentage, OF restore_event_ok]
  show ?thesis
    using Resolved ok
    by (simp add: restore_defs new_events_def split: outcome.splits emitter.splits)
next
  case (Rejected msg)
  then show ?thesis
    by (simp add: restore_defs new_events_def)
qed

lemma recovery_events_ok:
  assumes "transfer_fits (head_object env) (chunks env @ late_chunks env)"
  shows "list_all event_ok (new_events s (snd (recovery_route env f s)))"
proof (cases "head_object env")
  case (Resolved S)
  with assms have "chunks_fit S (chunks env @ late_chunks env)"
    by (simp add: transfer_fits_def)
  note ok = chunk_events_ok [OF this, of "''Downloading backup...''" recovery_percentage,
      OF recovery_event_ok]
  show ?thesis
    using Resolved ok
    by (simp add: recovery_defs new_events_def split: outcome.splits emitter.splits)
next
  case (Rejected msg)
  then show ?thesis
    by (simp add: recovery_defs new_events_def split: outcome.splits)
qed

lemmas run_defs =
  backup_defs restore_defs recovery_defs new_events_def healthy_def fresh_def healthy_percentages

text \<open>
  C7 (amended). Every event of a backup, restore or disaster-recovery run has a string
  message and a percentage that is either one of the numbers \<open>-1\<close>, \<open>0\<close>, \<open>10\<close>, \<open>80\<close>,
  \<open>100\<close> or, for the events emitted per chunk of a streaming transfer, the string that
  \<^verbatim>\<open>toFixed(2)\<close> returns: a numeral with exactly two fraction digits, or one of the
  names \<^verbatim>\<open>Infinity\<close> and \<^verbatim>\<open>NaN\<close>. When the chunks of the transfer, those that arrive
  after a rejection included, stay within the announced size, every such string is a
  two-decimal numeral and denotes a number between 0 and 100.
\<close>

theorem progress_event_shape:
  "list_all event_form (new_events s (snd (performBackup socket env s))) \<and>
   list_all event_form (new_events s (snd (restore_route env filename s))) \<and>
   list_all event_form (new_events s (snd (recovery_route env filename s))) \<and>
   (transfer_fits (stat_size env) (chunks env @ late_chunks env) \<longrightarrow>
      list_all event_ok (new_events s (snd (performBackup socket env s)))) \<and>
   (transfer_fits (head_object env) (chunks env @ late_chunks env) \<longrightarrow>
      list_all event_ok (new_events s (snd (restore_route env filename s))) \<and>
      list_all event_ok (new_events s (snd (recovery_route env filename s))))"
  using backup_events_form [of s socket env] restore_events_form [of s env filename]
    recovery_events_form [of s env filename] backup_events_ok [of env s socket]
    restore_events_ok [of env s filename] recovery_events_ok [of env s filename]
  by blast

theorem progress_event_shape_witness:
  "transfer_fits (stat_size healthy) (chunks healthy @ late_chunks healthy) \<and>
   transfer_fits (head_object healthy) (chunks healthy @ late_chunks healthy) \<and>
   list_all event_form (new_events fresh (snd (performBackup True healthy fresh))) \<and>
   list_all event_ok (new_events fresh (snd (performBackup True healthy fresh))) \<and>
   list_all event_ok (new_events fresh (snd (restore_route healthy ''a.sql'' fresh))) \<and>
   list_all event_ok (new_events fresh (snd (recovery_route healthy ''a.sql'' fresh)))"
proof -
  have "transfer_fits (stat_size healthy) (chunks healthy @ late_chunks healthy)"
    and "transfer_fits (head_object healthy) (chunks healthy @ late_chunks healthy)"
    by (simp_all add: healthy_def transfer_fits_def chunks_fit_def)
  then show ?thesis
    using progress_event_shape [of fresh True healthy "''a.sql''"] by blast
qed

text \<open>
  C7 as stated fails: the events emitted per chunk carry a string, not a number. A backup
  of a four-byte dump read in chunks of one and three bytes emits the percentages
  \<^verbatim>\<open>0\<close>, \<^verbatim>\<open>10\<close>, \<^verbatim>\<open>"32.50"\<close>, \<^verbatim>\<open>"100.00"\<close>, \<^verbatim>\<open>100\<close>. The string is no numeral at all
  when the announced size is 0: a restore of an object announced as empty emits
  \<^verbatim>\<open>"Infinity"\<close> for a chunk of five bytes and \<^verbatim>\<open>"NaN"\<close> for an empty chunk. And it
  leaves the interval when a chunk exceeds the announced size: six bytes against an
  announced size of four give \<^verbatim>\<open>"120.00"\<close>.
\<close>

theorem progress_event_shape_counterexample:
  "map percentage (new_events fresh (snd (performBackup True healthy fresh))) =
     [JNum 0, JNum 10, JStr ''32.50'', JStr ''100.00'', JNum 100] \<and>
   map percentage (new_events fresh
       (snd (restore_route (healthy\<lparr>head_object := Resolved 0, chunks := [5]\<rparr>) ''a.sql'' fresh))) =
     [JNum 0, JStr ''Infinity'', JNum 80, JNum 100] \<and>
   map percentage (new_events fresh
       (snd (restore_route (healthy\<lparr>head_object := Resolved 0, chunks := [0]\<rparr>) ''a.sql'' fresh))) =
     [JNum 0, JStr ''NaN'', JNum 80, JNum 100] \<and>
   map percentage (new_events fresh
       (snd (restore_route (healthy\<lparr>chunks := [6]\<rparr>) ''a.sql'' fresh))) =
     [JNum 0, JStr ''120.00'', JNum 80, JNum 100] \<and>
   pct_value (JStr ''120.00'') = Some 120 \<and>
   \<not> transfer_fits (head_object (healthy\<lparr>chunks := [6]\<rparr>))
       (chunks (healthy\<lparr>chunks := [6]\<rparr>) @ late_chunks (healthy\<lparr>chunks := [6]\<rparr>)) \<and>
   \<not> list_all event_ok (new_events fresh
       (snd (restore_route (healthy\<lparr>chunks := [6]\<rparr>) ''a.sql'' fresh)))"
proof -
  have p: "restore_percentage 5 0 = ''Infinity''" "restore_percentage 0 0 = ''NaN''"
    "restore_percentage 6 4 = ''120.00''"
    by (simp_all add: percentage_defs print_defs)
  have v: "pct_value (JStr ''120.00'') = Some 120"
    by (simp add: pct_value.simps read_decimal_def is_digit_def digit_val_def read_nat_def)
  have e1: "map percentage (new_events fresh (snd (performBackup True healthy fresh))) =
      [JNum 0, JNum 10, JStr ''32.50'', JStr ''100.00'', JNum 100]"
    by (simp add: run_defs)
  have e2: "map percentage (new_events fresh
       (snd (restore_route (healthy\<lparr>head_object := Resolved 0, chunks := [5]\<rparr>) ''a.sql'' fresh))) =
     [JNum 0, JStr ''Infinity'', JNum 80, JNum 100]"
    by (simp add: run_defs p)
  have e3: "map percentage (new_events fresh
       (snd (restore_route (healthy\<lparr>head_object := Resolved 0, chunks := [0]\<rparr>) ''a.sql'' fresh))) =
     [JNum 0, JStr ''NaN'', JNum 80, JNum 100]"
    by (simp add: run_defs p)
  have e4: "new_events fresh (snd (restore_route (healthy\<lparr>chunks := [6]\<rparr>) ''a.sql'' fresh)) =
     [\<lparr>message = ''Starting restore...'', percentage = JNum 0\<rparr>,
      \<lparr>message = ''Downloading...'', percentage = JStr ''120.00''\<rparr>,
      \<lparr>message = ''Restoring database...'', percentage = JNum 80\<rparr>,
      \<lparr>message = ''Restore completed'', percentage = JNum 100\<rparr>]"
    by (simp add: run_defs p)
  have f: "\<not> transfer_fits (head_object (healthy\<lparr>chunks := [6]\<rparr>))
       (chunks (healthy\<lparr>chunks := [6]\<rparr>) @ late_chunks (healthy\<lparr>chunks := [6]\<rparr>))"
    by (simp add: healthy_def transfer_fits_def chunks_fit_def)
  have n: "\<not> event_ok \<lparr>message = ''Downloading...'', percentage = JStr ''120.00''\<rparr>"
    by (simp add: event_ok_def v)
  show ?thesis
    unfolding e1 e2 e3 e4 using v f n by simp
qed

subsection \<open>The events of one run\<close>

lemma silent_backup: "new_events s (snd (performBackup False env s)) = []"
  by (simp add: backup_defs new_events_def split: outcome.splits)

lemma healthy_values:
  "pct_value (JStr ''32.50'') = Some (65 / 2)" "pct_value (JStr ''100.00'') = Some 100"
  "pct_value (JStr ''20.00'') = Some 20" "pct_value (JStr ''80.00'') = Some 80"
  "pct_value (JStr ''27.50'') = Some (55 / 2)"
  by (simp_all add: pct_value.simps read_decimal_def is_digit_def digit_val_def read_nat_def)

lemma healthy_backup_events:
  "new_events fresh (snd (performBackup True healthy fresh)) =
     [\<lparr>message = ''Starting backup...'', percentage = JNum 0\<rparr>,
      \<lparr>message = ''Uploading backup...'', percentage = JNum 10\<rparr>,
      \<lparr>message = ''Uploading...'', percentage = JStr ''32.50''\<rparr>,
      \<lparr>message = ''Uploading...'', percentage = JStr ''100.00''\<rparr>,
      \<lparr>message = ''Backup completed'', percentage = JNum 100\<rparr>]"
  by (simp add: run_defs)

lemma healthy_restore_events:
  "new_events fresh (snd (restore_route healthy ''a.sql'' fresh)) =
     [\<lparr>message = ''Starting restore...'', percentage = JNum 0\<rparr>,
      \<lparr>message = ''Downloading...'', percentage = JStr ''20.00''\<rparr>,
      \<lparr>message = ''Downloading...'', percentage = JStr ''80.00''\<rparr>,
      \<lparr>message = ''Restoring database...'', percentage = JNum 80\<rparr>,
      \<lparr>message = ''Restore completed'', percentage = JNum 100\<rparr>]"
  by (simp add: run_defs)

lemma healthy_recovery_events:
  "new_events fresh (snd (recovery_route healthy ''a.sql'' fresh)) =
     [\<lparr>message = ''Starting disaster recovery...'', percentage = JNum 0\<rparr>,
      \<lparr>message = ''Temporary database created...'', percentage = JNum 10\<rparr>,
      \<lparr>message = ''Downloading backup...'', percentage = JStr ''27.50''\<rparr>,
      \<lparr>message = ''Downloading backup...'', percentage = JStr ''80.00''\<rparr>,
      \<lparr>message = ''Restoring to temporary database...'', percentage = JNum 80\<rparr>,
      \<lparr>message = ''Disaster recovery completed'', percentage = JNum 100\<rparr>]"
  by (simp add: run_defs)

lemma healthy_runs_shape:
  "run_shape (new_events fresh (snd (performBackup True healthy fresh)))"
  "run_shape (new_events fresh (snd (restore_route healthy ''a.sql'' fresh)))"
  "run_shape (new_events fresh (snd (recovery_route healthy ''a.sql'' fresh)))"
  unfolding healthy_backup_events healthy_restore_events healthy_recovery_events
  by (simp_all add: run_shape_def nondecreasing_def healthy_values del: not_None_eq)

lemma unlink_failure_events:
  "map percentage (new_events fresh
       (snd (performBackup True (healthy\<lparr>unlink := Rejected ''EBUSY''\<rparr>) fresh))) =
     [JNum 0, JNum 10, JStr ''32.50'', JStr ''100.00'', JNum 100, JNum (- 1)]"
  "map percentage (new_events fresh
       (snd (restore_route (healthy\<lparr>unlink := Rejected ''EBUSY''\<rparr>) ''a.sql'' fresh))) =
     [JNum 0, JStr ''20.00'', JStr ''80.00'', JNum 80, JNum 100, JNum (- 1)]"
  "map percentage (new_events fresh
       (snd (recovery_route (healthy\<lparr>unlink := Rejected ''EBUSY''\<rparr>) ''a.sql'' fresh))) =
     [JNum 0, JNum 10, JStr ''27.50'', JStr ''80.00'', JNum 80, JNum 100, JNum (- 1)]"
  by (simp_all add: run_defs)

lemma late_chunk_events:
  "map percentage (new_events fresh
       (snd (performBackup True
          (healthy\<lparr>chunks := [1], late_chunks := [3], cos_upload := Rejected ''timeout''\<rparr>) fresh))) =
     [JNum 0, JNum 10, JStr ''32.50'', JNum (- 1), JStr ''100.00'']"
  "map percentage (new_events fresh
       (snd (restore_route
          (healthy\<lparr>chunks := [1], late_chunks := [3], write_stream := Rejected ''ENOSPC''\<rparr>)
          ''a.sql'' fresh))) =
     [JNum 0, JStr ''20.00'', JNum (- 1), JStr ''80.00'']"
  by (simp_all add: run_defs)

lemma run_shape_percentages:
  "run_shape evs \<longleftrightarrow>
     evs \<noteq> [] \<and>
     (last (map percentage evs) = JNum 100 \<or> last (map percentage evs) = JNum (- 1)) \<and>
     \<not> list_ex (\<lambda>p. p = JNum 100 \<or> p = JNum (- 1)) (butlast (map percentage evs)) \<and>
     nondecreasing (butlast (map percentage evs))"
  by (cases evs rule: rev_cases)
    (simp_all add: run_shape_def terminal_def list_ex_iff map_butlast [symmetric] last_map)

text \<open>
  C2 fails on the code. The deletion of the temporary file comes after the terminal 100
  event and inside the \<^verbatim>\<open>try\<close> block: when it throws, the \<^verbatim>\<open>catch\<close> block emits the
  terminal \<open>-1\<close> as well, so the run has two terminal events. And the \<^verbatim>\<open>data\<close> listener
  is never removed: when the upload of a backup, or the write to the temporary file of a
  restore, is rejected while the source stream still has chunks to deliver, their events
  follow the terminal \<open>-1\<close>. Runs in which every step succeeds have the shape the claim
  asks for.
\<close>

theorem terminal_event_not_last:
  "map percentage (new_events fresh
       (snd (performBackup True (healthy\<lparr>unlink := Rejected ''EBUSY''\<rparr>) fresh))) =
     [JNum 0, JNum 10, JStr ''32.50'', JStr ''100.00'', JNum 100, JNum (- 1)] \<and>
   \<not> run_shape (new_events fresh
       (snd (performBackup True (healthy\<lparr>unlink := Rejected ''EBUSY''\<rparr>) fresh))) \<and>
   map percentage (new_events fresh
       (snd (restore_route (healthy\<lparr>unlink := Rejected ''EBUSY''\<rparr>) ''a.sql'' fresh))) =
     [JNum 0, JStr ''20.00'', JStr ''80.00'', JNum 80, JNum 100, JNum (- 1)] \<and>
   \<not> run_shape (new_events fresh
       (snd (restore_route (healthy\<lparr>unlink := Rejected ''EBUSY''\<rparr>) ''a.sql'' fresh))) \<and>
   map percentage (new_events fresh
       (snd (recovery_route (healthy\<lparr>unlink := Rejected ''EBUSY''\<rparr>) ''a.sql'' fresh))) =
     [JNum 0, JNum 10, JStr ''27.50'', JStr ''80.00'', JNum 80, JNum 100, JNum (- 1)] \<and>
   \<not> run_shape (new_events fresh
       (snd (recovery_route (healthy\<lparr>unlink := Rejected ''EBUSY''\<rparr>) ''a.sql'' fresh))) \<and>
   map percentage (new_events fresh
       (snd (performBackup True
          (healthy\<lparr>chunks := [1], late_chunks := [3], cos_upload := Rejected ''timeout''\<rparr>) fresh))) =
     [JNum 0, JNum 10, JStr ''32.50'', JNum (- 1), JStr ''100.00''] \<and>
   \<not> run_shape (new_events fresh
       (snd (performBackup True
          (healthy\<lparr>chunks := [1], late_chunks := [3], cos_upload := Rejected ''timeout''\<rparr>) fresh))) \<and>
   map percentage (new_events fresh
       (snd (restore_route
          (healthy\<lparr>chunks := [1], late_chunks := [3], write_stream := Rejected ''ENOSPC''\<rparr>)
          ''a.sql'' fresh))) =
     [JNum 0, JStr ''20.00'', JNum (- 1), JStr ''80.00''] \<and>
   \<not> run_shape (new_events fresh
       (snd (restore_route
          (healthy\<lparr>chunks := [1], late_chunks := [3], write_stream := Rejected ''ENOSPC''\<rparr>)
          ''a.sql'' fresh))) \<and>
   run_shape (new_events fresh (snd (performBackup True healthy fresh))) \<and>
   run_shape (new_events fresh (snd (restore_route healthy ''a.sql'' fresh))) \<and>
   run_shape (new_events fresh (snd (recovery_route healthy ''a.sql'' fresh)))"
  unfolding run_shape_percentages unlink_failure_events late_chunk_events
  using healthy_runs_shape [unfolded run_shape_percentages]
  by simp

subsection \<open>Failures\<close>

lemmas error_defs = backup_error_def restore_error_def recovery_error_def rejection_def

lemma backup_error_cases [consumes 1, case_names dump_fails stat_fails upload_fails unlink_fails]:
  assumes "backup_error env = Some msg"
  obtains "pg_dump env = Rejected msg"
  | "pg_dump env = Resolved ()" "stat_size env = Rejected msg"
  | S where "pg_dump env = Resolved ()" "stat_size env = Resolved S" "cos_upload env = Rejected msg"
  | S where "pg_dump env = Resolved ()" "stat_size env = Resolved S" "cos_upload env = Resolved ()"
      "unlink env = Rejected msg"
  using assms by (auto simp: error_defs split: outcome.splits)

lemmas entry_defs = new_entries_def new_mails_def

lemma dump_failure_on_route:
  "\<not> fst (performBackup True (healthy\<lparr>pg_dump := Rejected ''exit 1''\<rparr>) fresh)"
  "fst (backup_route (healthy\<lparr>pg_dump := Rejected ''exit 1''\<rparr>) fresh) = Redirect ''/''"
  "fst (backup_route healthy fresh) = Redirect ''/''"
  by (simp_all add: backup_route_def backup_defs healthy_def case_prod_beta)

lemma sibling_routes_answer:
  "fst (restore_route (healthy\<lparr>head_object := Rejected ''NoSuchKey''\<rparr>) ''a.sql'' fresh) =
     Status 500 ''Restore failed''"
  "fst (delete_route (healthy\<lparr>delete_object := Rejected ''AccessDenied''\<rparr>) ''a.sql'' fresh) =
     Status 500 ''Delete failed''"
  "fst (recovery_route (healthy\<lparr>createdb := Rejected ''exit 1''\<rparr>) ''a.sql'' fresh) =
     Status 500 ''Disaster recovery failed''"
  by (simp_all add: restore_defs recovery_defs delete_route_def healthy_def)

lemma read_stream_error_restore:
  "fst (restore_route
      (healthy\<lparr>chunks := [1], write_stream := Rejected ''ECONNRESET'', error_from := ObjectStream\<rparr>)
      ''a.sql'' fresh) = Uncaught ''ECONNRESET''"
  "map percentage (new_events fresh (snd (restore_route
      (healthy\<lparr>chunks := [1], write_stream := Rejected ''ECONNRESET'', error_from := ObjectStream\<rparr>)
      ''a.sql'' fresh))) = [JNum 0, JStr ''20.00'']"
  "map entry_text (new_entries fresh (snd (restore_route
      (healthy\<lparr>chunks := [1], write_stream := Rejected ''ECONNRESET'', error_from := ObjectStream\<rparr>)
      ''a.sql'' fresh))) = [''Starting restore process: a.sql'']"
  by (simp_all add: run_defs entry_defs)

lemma read_stream_error_recovery:
  "fst (recovery_route
      (healthy\<lparr>chunks := [1], write_stream := Rejected ''ECONNRESET'', error_from := ObjectStream\<rparr>)
      ''a.sql'' fresh) = Uncaught ''ECONNRESET''"
  "map percentage (new_events fresh (snd (recovery_route
      (healthy\<lparr>chunks := [1], write_stream := Rejected ''ECONNRESET'', error_from := ObjectStream\<rparr>)
      ''a.sql'' fresh))) = [JNum 0, JNum 10, JStr ''27.50'']"
  "filter escalate (new_entries fresh (snd (recovery_route
      (healthy\<lparr>chunks := [1], write_stream := Rejected ''ECONNRESET'', error_from := ObjectStream\<rparr>)
      ''a.sql'' fresh))) = []"
  by (simp_all add: run_defs entry_defs)

lemma write_stream_error_restore:
  "fst (restore_route (healthy\<lparr>chunks := [1], write_stream := Rejected ''ENOSPC''\<rparr>)
      ''a.sql'' fresh) = Status 500 ''Restore failed''"
  "map percentage (new_events fresh (snd (restore_route
      (healthy\<lparr>chunks := [1], write_stream := Rejected ''ENOSPC''\<rparr>) ''a.sql'' fresh))) =
     [JNum 0, JStr ''20.00'', JNum (- 1)]"
  "map entry_text (filter escalate (new_entries fresh (snd (restore_route
      (healthy\<lparr>chunks := [1], write_stream := Rejected ''ENOSPC''\<rparr>) ''a.sql'' fresh)))) =
     [''Restore failed: ENOSPC'']"
  by (simp_all add: run_defs entry_defs)

text \<open>
  C5 fails on the code, in two places. The manual backup route does not look at what
  \<^verbatim>\<open>performBackup\<close> returns: when the dump command fails, the caller gets the redirect
  to the dashboard that a successful backup gets, where the restore, delete and
  disaster-recovery routes answer with status 500. And an error of the object read
  stream during a restore or a disaster recovery is caught nowhere: the handler sends no
  response, no \<open>-1\<close> event is emitted and no audit entry is written for it, where the
  same run with the error on the write stream ends as the claim says.
\<close>

theorem failure_not_surfaced:
  "\<not> fst (performBackup True (healthy\<lparr>pg_dump := Rejected ''exit 1''\<rparr>) fresh) \<and>
   fst (backup_route (healthy\<lparr>pg_dump := Rejected ''exit 1''\<rparr>) fresh) = Redirect ''/'' \<and>
   fst (backup_route healthy fresh) = Redirect ''/'' \<and>
   fst (restore_route (healthy\<lparr>head_object := Rejected ''NoSuchKey''\<rparr>) ''a.sql'' fresh) =
     Status 500 ''Restore failed'' \<and>
   fst (delete_route (healthy\<lparr>delete_object := Rejected ''AccessDenied''\<rparr>) ''a.sql'' fresh) =
     Status 500 ''Delete failed'' \<and>
   fst (recovery_route (healthy\<lparr>createdb := Rejected ''exit 1''\<rparr>) ''a.sql'' fresh) =
     Status 500 ''Disaster recovery failed'' \<and>
   fst (restore_route
      (healthy\<lparr>chunks := [1], write_stream := Rejected ''ECONNRESET'', error_from := ObjectStream\<rparr>)
      ''a.sql'' fresh) = Uncaught ''ECONNRESET'' \<and>
   map percentage (new_events fresh (snd (restore_route
      (healthy\<lparr>chunks := [1], write_stream := Rejected ''ECONNRESET'', error_from := ObjectStream\<rparr>)
      ''a.sql'' fresh))) = [JNum 0, JStr ''20.00''] \<and>
   map entry_text (new_entries fresh (snd (restore_route
      (healthy\<lparr>chunks := [1], write_stream := Rejected ''ECONNRESET'', error_from := ObjectStream\<rparr>)
      ''a.sql'' fresh))) = [''Starting restore process: a.sql''] \<and>
   fst (recovery_route
      (healthy\<lparr>chunks := [1], write_stream := Rejected ''ECONNRESET'', error_from := ObjectStream\<rparr>)
      ''a.sql'' fresh) = Uncaught ''ECONNRESET'' \<and>
   map percentage (new_events fresh (snd (recovery_route
      (healthy\<lparr>chunks := [1], write_stream := Rejected ''ECONNRESET'', error_from := ObjectStream\<rparr>)
      ''a.sql'' fresh))) = [JNum 0, JNum 10, JStr ''27.50''] \<and>
   filter escalate (new_entries fresh (snd (recovery_route
      (healthy\<lparr>chunks := [1], write_stream := Rejected ''ECONNRESET'', error_from := ObjectStream\<rparr>)
      ''a.sql'' fresh))) = [] \<and>
   fst (restore_route (healthy\<lparr>chunks := [1], write_stream := Rejected ''ENOSPC''\<rparr>)
      ''a.sql'' fresh) = Status 500 ''Restore failed'' \<and>
   map percentage (new_events fresh (snd (restore_route
      (healthy\<lparr>chunks := [1], write_stream := Rejected ''ENOSPC''\<rparr>) ''a.sql'' fresh))) =
     [JNum 0, JStr ''20.00'', JNum (- 1)] \<and>
   map entry_text (filter escalate (new_entries fresh (snd (restore_route
      (healthy\<lparr>chunks := [1], write_stream := Rejected ''ENOSPC''\<rparr>) ''a.sql'' fresh)))) =
     [''Restore failed: ENOSPC'']"
  by (simp only: dump_failure_on_route sibling_routes_answer read_stream_error_restore
      read_stream_error_recovery write_stream_error_restore simp_thms)

subsection \<open>Results of the runs\<close>

lemma first_rejection_None:
  "first_rejection rs = None \<longleftrightarrow> list_all (\<lambda>r. r = None) rs"
  by (induction rs rule: first_rejection.induct) simp_all

lemma rejection_None: "rejection r = None \<longleftrightarrow> (\<exists>v. r = Resolved v)"
  by (cases r) (simp_all add: rejection_def)

lemma backup_resolved:
  assumes "backup_error env = None"
  obtains S where "pg_dump env = Resolved ()" "stat_size env = Resolved S"
    "cos_upload env = Resolved ()" "unlink env = Resolved ()"
  using assms by (auto simp: backup_error_def first_rejection_None rejection_None)

lemma restore_resolved:
  assumes "restore_error env = None"
  obtains S where "head_object env = Resolved S" "write_stream env = Resolved ()"
    "psql env = Resolved ()" "unlink env = Resolved ()"
  using assms by (auto simp: restore_error_def first_rejection_None rejection_None)

lemma recovery_resolved:
  assumes "recovery_error env = None"
  obtains S where "createdb env = Resolved ()" "head_object env = Resolved S"
    "write_stream env = Resolved ()" "psql env = Resolved ()" "unlink env = Resolved ()"
  using assms by (auto simp: recovery_error_def first_rejection_None rejection_None)

lemma backup_result: "fst (performBackup socket env s) \<longleftrightarrow> backup_error env = None"
  by (simp add: backup_defs error_defs split: outcome.splits)

lemma restore_result: "fst (restore_route env f s) = Redirect ''/'' \<longleftrightarrow> restore_error env = None"
  by (simp add: restore_defs error_defs split: outcome.splits emitter.splits)

lemma recovery_result: "fst (recovery_route env f s) = Redirect ''/'' \<longleftrightarrow> recovery_error env = None"
  by (simp add: recovery_defs error_defs split: outcome.splits emitter.splits)


subsection \<open>Escalation\<close>

lemma restore_success_entries:
  assumes "fst (restore_route env f s) = Redirect ''/''"
  shows "map entry_text (filter escalate (new_entries s (snd (restore_route env f s)))) =
           [''Database restored successfully from: '' @ f] \<and>
         new_mails s (snd (restore_route env f s)) =
           map log_line (filter escalate (new_entries s (snd (restore_route env f s))))"
proof -
  from assms have "restore_error env = None"
    by (simp only: restore_result)
  then obtain S where "head_object env = Resolved S" "write_stream env = Resolved ()"
    "psql env = Resolved ()" "unlink env = Resolved ()"
    by (rule restore_resolved)
  then show ?thesis
    by (simp add: restore_defs entry_defs)
qed

lemma delete_success_entries:
  assumes "fst (delete_route env f s) = Redirect ''/''"
  shows "map entry_text (filter escalate (new_entries s (snd (delete_route env f s)))) =
           [''Backup deleted successfully: '' @ f] \<and>
         new_mails s (snd (delete_route env f s)) =
           map log_line (filter escalate (new_entries s (snd (delete_route env f s))))"
proof (cases "delete_object env")
  case (Resolved u)
  then show ?thesis
    by (simp add: delete_route_def Let_def entry_defs)
next
  case (Rejected msg)
  with assms show ?thesis
    by (simp add: delete_route_def Let_def)
qed

lemma recovery_success_entries:
  assumes "fst (recovery_route env f s) = Redirect ''/''"
  shows "map entry_text (filter escalate (new_entries s (snd (recovery_route env f s)))) =
           [''Temporary database restored: recovery_'' @ show_nat (date_now env)] \<and>
         new_mails s (snd (recovery_route env f s)) =
           map log_line (filter escalate (new_entries s (snd (recovery_route env f s))))"
proof -
  from assms have "recovery_error env = None"
    by (simp only: recovery_result)
  then obtain S where "createdb env = Resolved ()" "head_object env = Resolved S"
    "write_stream env = Resolved ()" "psql env = Resolved ()" "unlink env = Resolved ()"
    by (rule recovery_resolved)
  then show ?thesis
    by (simp add: recovery_defs entry_defs)
qed

lemma backup_success_entries:
  assumes "fst (performBackup socket env s)"
  shows "new_entries s (snd (performBackup socket env s)) \<noteq> [] \<and>
         filter escalate (new_entries s (snd (performBackup socket env s))) = [] \<and>
         new_mails s (snd (performBackup socket env s)) = []"
proof -
  from assms have "backup_error env = None"
    by (simp only: backup_result)
  then obtain S where "pg_dump env = Resolved ()" "stat_size env = Resolved S"
    "cos_upload env = Resolved ()" "unlink env = Resolved ()"
    by (rule backup_resolved)
  then show ?thesis
    by (simp add: backup_defs entry_defs)
qed

lemma backup_error_entries:
  assumes "backup_error env = Some msg"
  shows "map entry_text (filter escalate (new_entries s (snd (performBackup socket env s)))) =
           [''Backup failed: '' @ msg] \<and>
         new_mails s (snd (performBackup socket env s)) =
           map log_line (filter escalate (new_entries s (snd (performBackup socket env s))))"
  using assms
proof (cases rule: backup_error_cases)
  case dump_fails
  then show ?thesis by (simp add: backup_defs entry_defs)
next
  case stat_fails
  then show ?thesis by (simp add: backup_defs entry_defs)
next
  case upload_fails
  then show ?thesis by (simp add: backup_defs entry_defs)
next
  case unlink_fails
  then show ?thesis by (simp add: backup_defs entry_defs)
qed

lemma backup_failure_entries:
  assumes "\<not> fst (performBackup socket env s)"
  shows "map entry_text (filter escalate (new_entries s (snd (performBackup socket env s)))) =
           [''Backup failed: '' @ the (backup_error env)] \<and>
         new_mails s (snd (performBackup socket env s)) =
           map log_line (filter escalate (new_entries s (snd (performBackup socket env s))))"
proof -
  from assms have "backup_error env \<noteq> None"
    by (simp add: backup_result)
  then obtain msg where "backup_error env = Some msg"
    by blast
  with backup_error_entries [OF this, of s socket] show ?thesis
    by simp
qed

text \<open>
  C6. A manual restore, delete or disaster recovery that succeeds writes one escalated
  audit entry (its success line) and hands it to the notifier; a backup run that succeeds
  writes audit entries none of which is escalated, and the notifier is not invoked; a
  backup run that fails writes one escalated entry, \<^verbatim>\<open>Backup failed: ...\<close>, which is
  handed to the notifier.
\<close>

theorem escalation_policy:
  "(fst (restore_route env filename s) = Redirect ''/'' \<longrightarrow>
      map entry_text (filter escalate (new_entries s (snd (restore_route env filename s)))) =
        [''Database restored successfully from: '' @ filename] \<and>
      new_mails s (snd (restore_route env filename s)) =
        map log_line (filter escalate (new_entries s (snd (restore_route env filename s))))) \<and>
   (fst (delete_route env filename s) = Redirect ''/'' \<longrightarrow>
      map entry_text (filter escalate (new_entries s (snd (delete_route env filename s)))) =
        [''Backup deleted successfully: '' @ filename] \<and>
      new_mails s (snd (delete_route env filename s)) =
        map log_line (filter escalate (new_entries s (snd (delete_route env filename s))))) \<and>
   (fst (recovery_route env filename s) = Redirect ''/'' \<longrightarrow>
      map entry_text (filter escalate (new_entries s (snd (recovery_route env filename s)))) =
        [''Temporary database restored: recovery_'' @ show_nat (date_now env)] \<and>
      new_mails s (snd (recovery_route env filename s)) =
        map log_line (filter escalate (new_entries s (snd (recovery_route env filename s))))) \<and>
   (fst (performBackup socket env s) \<longrightarrow>
      new_entries s (snd (performBackup socket env s)) \<noteq> [] \<and>
      filter escalate (new_entries s (snd (performBackup socket env s))) = [] \<and>
      new_mails s (snd (performBackup socket env s)) = []) \<and>
   (\<not> fst (performBackup socket failing s) \<longrightarrow>
      map entry_text (filter escalate (new_entries s (snd (performBackup socket failing s)))) =
        [''Backup failed: '' @ the (backup_error failing)] \<and>
      new_mails s (snd (performBackup socket failing s)) =
        map log_line (filter escalate (new_entries s (snd (performBackup socket failing s)))))"
  using restore_success_entries [of env filename s] delete_success_entries [of env filename s]
    recovery_success_entries [of env filename s] backup_success_entries [of socket env s]
    backup_failure_entries [of socket failing s]
  by blast

theorem escalation_policy_witness:
  "fst (restore_route healthy ''a.sql'' fresh) = Redirect ''/'' \<and>
   fst (delete_route healthy ''a.sql'' fresh) = Redirect ''/'' \<and>
   fst (recovery_route healthy ''a.sql'' fresh) = Redirect ''/'' \<and>
   fst (performBackup True healthy fresh) \<and>
   \<not> fst (performBackup True (healthy\<lparr>cos_upload := Rejected ''timeout''\<rparr>) fresh) \<and>
   map entry_text (filter escalate (new_entries fresh (snd (restore_route healthy ''a.sql'' fresh)))) =
     [''Database restored successfully from: a.sql''] \<and>
   filter escalate (new_entries fresh (snd (performBackup True healthy fresh))) = [] \<and>
   map entry_text (filter escalate (new_entries fresh
       (snd (performBackup True (healthy\<lparr>cos_upload := Rejected ''timeout''\<rparr>) fresh)))) =
     [''Backup failed: timeout'']"
proof -
  have ok: "restore_error healthy = None" "recovery_error healthy = None" "backup_error healthy = None"
    by (simp_all add: error_defs healthy_def)
  have h1: "fst (restore_route healthy ''a.sql'' fresh) = Redirect ''/''"
    and h3: "fst (recovery_route healthy ''a.sql'' fresh) = Redirect ''/''"
    and h4: "fst (performBackup True healthy fresh)"
    using ok by (simp_all only: restore_result recovery_result backup_result)
  have h2: "fst (delete_route healthy ''a.sql'' fresh) = Redirect ''/''"
    by (simp add: delete_route_def healthy_def)
  have err: "backup_error (healthy\<lparr>cos_upload := Rejected ''timeout''\<rparr>) = Some ''timeout''"
    by (simp add: error_defs healthy_def)
  then have h5: "\<not> fst (performBackup True (healthy\<lparr>cos_upload := Rejected ''timeout''\<rparr>) fresh)"
    by (simp add: backup_result)
  show ?thesis
    using escalation_policy [of healthy "''a.sql''" fresh True "healthy\<lparr>cos_upload := Rejected ''timeout''\<rparr>"]
      h1 h2 h3 h4 h5 err
    by simp
qed

subsection \<open>Scheduled runs\<close>

lemma backup_result_socket: "fst (performBackup False env s) = fst (performBackup True env s)"
  by (simp add: backup_result)

lemma backup_entries_socket:
  "audit (snd (performBackup False env s)) = audit (snd (performBackup True env s)) \<and>
   mails (snd (performBackup False env s)) = mails (snd (performBackup True env s))"
  by (simp add: backup_defs split: outcome.splits)

lemma backup_first_entry:
  "\<exists>es. audit (snd (performBackup socket env s)) =
     audit s @ \<lparr>stamp = wall_clock s (Suc (ticks s)),
       entry_text = ''Starting backup process: '' @ backup_filename (wall_clock s (ticks s)),
       escalate = False\<rparr> # es"
  by (simp add: backup_defs split: outcome.splits)


lemma backup_mails_extend:
  "\<exists>ms. mails (snd (performBackup socket env s)) = mails s @ ms"
  by (simp add: backup_defs split: outcome.splits)

lemma scheduled_entries:
  "filter escalate (new_entries s (snd (scheduled_backup env s))) =
     filter escalate (new_entries (log ''Running scheduled auto-backup...'' False s)
       (snd (performBackup False env (log ''Running scheduled auto-backup...'' False s)))) \<and>
   new_mails s (snd (scheduled_backup env s)) =
     new_mails (log ''Running scheduled auto-backup...'' False s)
       (snd (performBackup False env (log ''Running scheduled auto-backup...'' False s))) \<and>
   map entry_text (take 2 (new_entries s (snd (scheduled_backup env s)))) =
     [''Running scheduled auto-backup...'',
      ''Starting backup process: '' @ backup_filename (wall_clock s (Suc (ticks s)))] \<and>
   entry_text (last (new_entries s (snd (scheduled_backup env s)))) = ''Auto-backup completed''"
proof -
  let ?s1 = "log ''Running scheduled auto-backup...'' False s"
  obtain es where a: "audit (snd (performBackup False env ?s1)) =
      audit ?s1 @ \<lparr>stamp = wall_clock ?s1 (Suc (ticks ?s1)),
        entry_text = ''Starting backup process: '' @ backup_filename (wall_clock ?s1 (ticks ?s1)),
        escalate = False\<rparr> # es"
    using backup_first_entry [of False env ?s1] by blast
  obtain ms where m: "mails (snd (performBackup False env ?s1)) = mails ?s1 @ ms"
    using backup_mails_extend [of False env ?s1] by blast
  show ?thesis
    by (simp add: scheduled_backup_def case_prod_beta Let_def entry_defs a m)
qed

text \<open>
  C9. With a non-empty schedule configuration a recurring trigger is registered. Each
  firing runs the backup without an observer: the run emits no progress event, ends with
  the same result as a run with an observer would, and is recorded in the audit log
  between the lines \<^verbatim>\<open>Running scheduled auto-backup...\<close> and \<^verbatim>\<open>Auto-backup completed\<close>;
  no entry is escalated when it succeeds, and exactly the \<^verbatim>\<open>Backup failed: ...\<close> entry is
  escalated when it fails.
\<close>

theorem scheduled_backup_silent:
  "(schedule \<noteq> [] \<longrightarrow> fst (schedule_startup (Some schedule) s)) \<and>
   new_events s (snd (scheduled_backup env s)) = [] \<and>
   fst (scheduled_backup env s) =
     fst (performBackup True env (log ''Running scheduled auto-backup...'' False s)) \<and>
   map entry_text (take 2 (new_entries s (snd (scheduled_backup env s)))) =
     [''Running scheduled auto-backup...'',
      ''Starting backup process: '' @ backup_filename (wall_clock s (Suc (ticks s)))] \<and>
   entry_text (last (new_entries s (snd (scheduled_backup env s)))) = ''Auto-backup completed'' \<and>
   (fst (scheduled_backup env s) \<longrightarrow>
      filter escalate (new_entries s (snd (scheduled_backup env s))) = [] \<and>
      new_mails s (snd (scheduled_backup env s)) = []) \<and>
   (\<not> fst (scheduled_backup failing s) \<longrightarrow>
      map entry_text (filter escalate (new_entries s (snd (scheduled_backup failing s)))) =
        [''Backup failed: '' @ the (backup_error failing)] \<and>
      length (new_mails s (snd (scheduled_backup failing s))) = 1)"
proof -
  let ?s1 = "log ''Running scheduled auto-backup...'' False s"
  let ?pb = "\<lambda>e. snd (performBackup False e ?s1)"
  have res: "fst (scheduled_backup e s) = fst (performBackup False e ?s1)" for e
    by (simp add: scheduled_backup_def case_prod_beta Let_def)
  have ev: "emitted (snd (scheduled_backup env s)) = emitted (?pb env)"
    by (simp add: scheduled_backup_def case_prod_beta Let_def)
  have "new_events ?s1 (?pb env) = []"
    by (rule silent_backup)
  then have silent: "new_events s (snd (scheduled_backup env s)) = []"
    by (simp add: new_events_def ev)
  have eqres: "fst (scheduled_backup env s) = fst (performBackup True env ?s1)"
    unfolding res by (rule backup_result_socket)
  have esc: "filter escalate (new_entries s (snd (scheduled_backup e s))) =
      filter escalate (new_entries ?s1 (?pb e))"
    and mail: "new_mails s (snd (scheduled_backup e s)) = new_mails ?s1 (?pb e)" for e
    using scheduled_entries [of s e] by blast+
  have t2: "map entry_text (take 2 (new_entries s (snd (scheduled_backup env s)))) =
     [''Running scheduled auto-backup...'',
      ''Starting backup process: '' @ backup_filename (wall_clock s (Suc (ticks s)))]"
    and la: "entry_text (last (new_entries s (snd (scheduled_backup env s)))) = ''Auto-backup completed''"
    using scheduled_entries [of s env] by blast+
  have ok: "filter escalate (new_entries s (snd (scheduled_backup env s))) = [] \<and>
      new_mails s (snd (scheduled_backup env s)) = []" if "fst (scheduled_backup env s)"
  proof -
    from that have "fst (performBackup False env ?s1)"
      unfolding res .
    from backup_success_entries [OF this] show ?thesis
      unfolding esc mail by blast
  qed
  have bad: "map entry_text (filter escalate (new_entries s (snd (scheduled_backup failing s)))) =
        [''Backup failed: '' @ the (backup_error failing)] \<and>
      length (new_mails s (snd (scheduled_backup failing s))) = 1"
    if "\<not> fst (scheduled_backup failing s)"
  proof -
    from that have "\<not> fst (performBackup False failing ?s1)"
      unfolding res .
    from backup_failure_entries [OF this]
    have entry: "map entry_text (filter escalate (new_entries ?s1 (?pb failing))) =
        [''Backup failed: '' @ the (backup_error failing)]"
      and ml: "new_mails ?s1 (?pb failing) =
        map log_line (filter escalate (new_entries ?s1 (?pb failing)))"
      by blast+
    from entry have "length (map entry_text (filter escalate (new_entries ?s1 (?pb failing)))) = 1"
      by (simp only: list.size One_nat_def add_0)
    then have "length (filter escalate (new_entries ?s1 (?pb failing))) = 1"
      by (simp only: length_map)
    then have "length (new_mails ?s1 (?pb failing)) = 1"
      by (simp only: ml length_map)
    with entry show ?thesis
      unfolding esc mail by blast
  qed
  have start: "schedule \<noteq> [] \<longrightarrow> fst (schedule_startup (Some schedule) s)"
    by (simp add: schedule_startup_def)
  show ?thesis
    using start silent eqres t2 la ok bad by blast
qed

theorem scheduled_backup_silent_witness:
  "''0 2 * * *'' \<noteq> [] \<and> fst (schedule_startup (Some ''0 2 * * *'') fresh) \<and>
   fst (scheduled_backup healthy fresh) \<and>
   \<not> fst (scheduled_backup (healthy\<lparr>pg_dump := Rejected ''exit 1''\<rparr>) fresh) \<and>
   new_events fresh (snd (scheduled_backup healthy fresh)) = [] \<and>
   new_mails fresh (snd (scheduled_backup healthy fresh)) = [] \<and>
   map entry_text (filter escalate (new_entries fresh
       (snd (scheduled_backup (healthy\<lparr>pg_dump := Rejected ''exit 1''\<rparr>) fresh)))) =
     [''Backup failed: exit 1'']"
proof -
  have res: "fst (scheduled_backup e fresh) \<longleftrightarrow> backup_error e = None" for e
    by (simp add: scheduled_backup_def case_prod_beta Let_def backup_result)
  have h1: "fst (scheduled_backup healthy fresh)"
    by (simp add: res error_defs healthy_def)
  have err: "backup_error (healthy\<lparr>pg_dump := Rejected ''exit 1''\<rparr>) = Some ''exit 1''"
    by (simp add: error_defs healthy_def)
  then have h2: "\<not> fst (scheduled_backup (healthy\<lparr>pg_dump := Rejected ''exit 1''\<rparr>) fresh)"
    by (simp add: res)
  show ?thesis
    using scheduled_backup_silent [of "''0 2 * * *''" fresh healthy "healthy\<lparr>pg_dump := Rejected ''exit 1''\<rparr>"]
      h1 h2 err
    by simp
qed

subsection \<open>Deleting the temporary file\<close>

lemma backup_unlink_failure:
  assumes "pg_dump env = Resolved ()" and "stat_size env = Resolved S"
    and "cos_upload env = Resolved ()" and "unlink env = Rejected msg"
  shows "\<not> fst (performBackup True env s) \<and>
         take 2 (rev (new_events s (snd (performBackup True env s)))) =
           [\<lparr>message = ''Backup failed'', percentage = JNum (- 1)\<rparr>,
            \<lparr>message = ''Backup completed'', percentage = JNum 100\<rparr>] \<and>
         entry_text (last (audit (snd (performBackup True env s)))) = ''Backup failed: '' @ msg \<and>
         escalate (last (audit (snd (performBackup True env s)))) \<and>
         backup_filename (wall_clock s (ticks s)) \<in> bucket (snd (performBackup True env s)) \<and>
         temp_path (backup_filename (wall_clock s (ticks s))) \<in>
           temp_dir (snd (performBackup True env s))"
  using assms by (simp add: backup_defs new_events_def)

lemma restore_unlink_failure:
  assumes "head_object env = Resolved S" and "write_stream env = Resolved ()"
    and "psql env = Resolved ()" and "unlink env = Rejected msg"
  shows "fst (restore_route env f s) = Status 500 ''Restore failed'' \<and>
         take 2 (rev (new_events s (snd (restore_route env f s)))) =
           [\<lparr>message = ''Restore failed'', percentage = JNum (- 1)\<rparr>,
            \<lparr>message = ''Restore completed'', percentage = JNum 100\<rparr>] \<and>
         entry_text (last (audit (snd (restore_route env f s)))) = ''Restore failed: '' @ msg \<and>
         escalate (last (audit (snd (restore_route env f s)))) \<and>
         (db_name env, temp_path f) \<in> set (restored (snd (restore_route env f s))) \<and>
         temp_path f \<in> temp_dir (snd (restore_route env f s))"
  using assms by (simp add: restore_defs new_events_def)

text \<open>
  C10. When the upload of a backup, or the database restore of a restore run, has
  succeeded and the terminal 100 event has been emitted, a failure to delete the
  temporary file is caught by the same handler: the run then emits a \<open>-1\<close> event after
  the 100, writes an escalated \<^verbatim>\<open>... failed\<close> audit entry and reports failure
  (\<^verbatim>\<open>performBackup\<close> returns \<^verbatim>\<open>false\<close>, the restore route answers 500), although the
  artifact is in the bucket and the database has been restored.
\<close>

theorem cleanup_failure_reported:
  assumes "unlink env = Rejected msg"
    and "pg_dump env = Resolved ()" and "stat_size env = Resolved S" and "cos_upload env = Resolved ()"
    and "head_object env = Resolved S'" and "write_stream env = Resolved ()" and "psql env = Resolved ()"
  shows "\<not> fst (performBackup True env s) \<and>
         take 2 (rev (new_events s (snd (performBackup True env s)))) =
           [\<lparr>message = ''Backup failed'', percentage = JNum (- 1)\<rparr>,
            \<lparr>message = ''Backup completed'', percentage = JNum 100\<rparr>] \<and>
         entry_text (last (audit (snd (performBackup True env s)))) = ''Backup failed: '' @ msg \<and>
         escalate (last (audit (snd (performBackup True env s)))) \<and>
         backup_filename (wall_clock s (ticks s)) \<in> bucket (snd (performBackup True env s)) \<and>
         fst (restore_route env filename s) = Status 500 ''Restore failed'' \<and>
         take 2 (rev (new_events s (snd (restore_route env filename s)))) =
           [\<lparr>message = ''Restore failed'', percentage = JNum (- 1)\<rparr>,
            \<lparr>message = ''Restore completed'', percentage = JNum 100\<rparr>] \<and>
         entry_text (last (audit (snd (restore_route env filename s)))) = ''Restore failed: '' @ msg \<and>
         escalate (last (audit (snd (restore_route env filename s)))) \<and>
         (db_name env, temp_path filename) \<in> set (restored (snd (restore_route env filename s)))"
  using backup_unlink_failure [OF assms(2,3,4,1), of s]
    restore_unlink_failure [OF assms(5,6,7,1), of filename s]
  by blast

theorem cleanup_failure_reported_witness:
  "unlink (healthy\<lparr>unlink := Rejected ''EBUSY''\<rparr>) = Rejected ''EBUSY'' \<and>
   pg_dump (healthy\<lparr>unlink := Rejected ''EBUSY''\<rparr>) = Resolved () \<and>
   stat_size (healthy\<lparr>unlink := Rejected ''EBUSY''\<rparr>) = Resolved 4 \<and>
   cos_upload (healthy\<lparr>unlink := Rejected ''EBUSY''\<rparr>) = Resolved () \<and>
   head_object (healthy\<lparr>unlink := Rejected ''EBUSY''\<rparr>) = Resolved 4 \<and>
   write_stream (healthy\<lparr>unlink := Rejected ''EBUSY''\<rparr>) = Resolved () \<and>
   psql (healthy\<lparr>unlink := Rejected ''EBUSY''\<rparr>) = Resolved () \<and>
   \<not> fst (performBackup True (healthy\<lparr>unlink := Rejected ''EBUSY''\<rparr>) fresh) \<and>
   fst (restore_route (healthy\<lparr>unlink := Rejected ''EBUSY''\<rparr>) ''a.sql'' fresh) =
     Status 500 ''Restore failed'' \<and>
   (''appdb'', ''temp/a.sql'') \<in>
     set (restored (snd (restore_route (healthy\<lparr>unlink := Rejected ''EBUSY''\<rparr>) ''a.sql'' fresh)))"
proof -
  have h: "unlink (healthy\<lparr>unlink := Rejected ''EBUSY''\<rparr>) = Rejected ''EBUSY''"
    "pg_dump (healthy\<lparr>unlink := Rejected ''EBUSY''\<rparr>) = Resolved ()"
    "stat_size (healthy\<lparr>unlink := Rejected ''EBUSY''\<rparr>) = Resolved 4"
    "cos_upload (healthy\<lparr>unlink := Rejected ''EBUSY''\<rparr>) = Resolved ()"
    "head_object (healthy\<lparr>unlink := Rejected ''EBUSY''\<rparr>) = Resolved 4"
    "write_stream (healthy\<lparr>unlink := Rejected ''EBUSY''\<rparr>) = Resolved ()"
    "psql (healthy\<lparr>unlink := Rejected ''EBUSY''\<rparr>) = Resolved ()"
    by (simp_all add: healthy_def)
  have d: "db_name (healthy\<lparr>unlink := Rejected ''EBUSY''\<rparr>) = ''appdb''"
    by (simp add: healthy_def)
  show ?thesis
    using cleanup_failure_reported [OF h, of fresh "''a.sql''"] h
    by (simp add: d temp_path_def)
qed

subsection \<open>Temporary files after a failed run\<close>

lemma backup_failure_keeps_temp_file:
  assumes "pg_dump env = Resolved ()" and "stat_size env = Resolved S"
    and "backup_error env = Some msg"
  shows "temp_path (backup_filename (wall_clock s (ticks s))) \<in>
           temp_dir (snd (performBackup socket env s))"
  using assms(3)
proof (cases rule: backup_error_cases)
  case dump_fails
  with assms(1) show ?thesis by simp
next
  case stat_fails
  with assms(2) show ?thesis by simp
next
  case upload_fails
  then show ?thesis by (simp add: backup_defs)
next
  case unlink_fails
  then show ?thesis by (simp add: backup_defs)
qed

text \<open>
  C1 fails on the code. A backup whose upload is rejected, and a restore whose
  \<^verbatim>\<open>psql\<close> command fails, end in the \<^verbatim>\<open>catch\<close> block, which does not delete the
  temporary file: it is still in the \<^verbatim>\<open>temp\<close> directory after the run. The same runs
  with every step succeeding leave the directory empty.
\<close>

theorem failed_run_leaves_temp_file:
  "\<not> fst (performBackup True (healthy\<lparr>cos_upload := Rejected ''timeout''\<rparr>) fresh) \<and>
   temp_dir (snd (performBackup True (healthy\<lparr>cos_upload := Rejected ''timeout''\<rparr>) fresh)) =
     {''temp/backup-2024-01-01T12-00-00.000Z.sql''} \<and>
   fst (restore_route (healthy\<lparr>psql := Rejected ''exit 3''\<rparr>) ''a.sql'' fresh) =
     Status 500 ''Restore failed'' \<and>
   temp_dir (snd (restore_route (healthy\<lparr>psql := Rejected ''exit 3''\<rparr>) ''a.sql'' fresh)) =
     {''temp/a.sql''} \<and>
   temp_dir (snd (performBackup True healthy fresh)) = {} \<and>
   temp_dir (snd (restore_route healthy ''a.sql'' fresh)) = {}"
  by (simp add: backup_defs restore_defs healthy_def fresh_def temp_path_def new_year_def
      backup_filename_def toISOString_def year_string_def replace_colons_def digit_char_def)

end
